theory Spec2Isabelle
  imports Main "HOL-Library.Sublist"
begin

section \<open>The subscriber registry (database.ts)\<close>

text \<open>
  The registry is a SQLite database with two tables. A table is modelled as the list of
  its rows in storage order. \<open>subscribers\<close> has \<open>chat_id INTEGER PRIMARY KEY\<close>, so its
  rows are stored by ascending \<open>chat_id\<close> and a \<open>SELECT\<close> without \<open>ORDER BY\<close> scans them in
  that order. The two columns filled by \<open>DEFAULT (unixepoch())\<close> (\<open>subscribed_at\<close>,
  \<open>timestamp\<close>) are never read by the program and are left out, as is the autoincremented
  \<open>id\<close> of the history table (it is the position of the row). A nullable \<open>TEXT\<close> column
  and an optional field of the \<open>Subscriber\<close> interface are both \<open>string option\<close>.
\<close>

record row =
  chat_id :: int
  username :: "string option"
  first_name :: "string option"
  last_name :: "string option"
  is_active :: int

record database =
  subscribers :: "row list"
  subscription_history :: "(int \<times> string) list"

record Subscriber =
  chatId :: int
  username :: "string option"
  firstName :: "string option"
  lastName :: "string option"

text \<open>
  \<open>v || null\<close> and \<open>v || undefined\<close> on an optional string: the empty string is falsy in
  JavaScript, so it is replaced like an absent value.
\<close>

definition or_absent :: "string option \<Rightarrow> string option" where
  "or_absent v = (case v of None \<Rightarrow> None | Some t \<Rightarrow> (if t = [] then None else Some t))"

text \<open>
  The prepared statements. \<open>INSERT OR REPLACE\<close> deletes the row that holds the same primary
  key, if any, and inserts the new row. \<open>UPDATE ... WHERE chat_id = ?\<close> rewrites every row
  the \<open>WHERE\<close> clause selects; SQLite reports as \<open>changes\<close> the number of rows the
  statement wrote, whether or not the value written differs from the old one.
\<close>

definition stmt_addSubscriber :: "row \<Rightarrow> row list \<Rightarrow> row list" where
  "stmt_addSubscriber r rows =
     insort_key chat_id r (filter (\<lambda>x. chat_id x \<noteq> chat_id r) rows)"

definition stmt_deactivateSubscriber :: "int \<Rightarrow> row list \<Rightarrow> nat \<times> row list" where
  "stmt_deactivateSubscriber c rows =
     (length (filter (\<lambda>x. chat_id x = c) rows),
      map (\<lambda>x. if chat_id x = c then x\<lparr>is_active := 0\<rparr> else x) rows)"

definition stmt_getActiveSubscribers :: "row list \<Rightarrow> row list" where
  "stmt_getActiveSubscribers rows = filter (\<lambda>x. is_active x = 1) rows"

definition stmt_checkSubscriber :: "int \<Rightarrow> row list \<Rightarrow> int option" where
  "stmt_checkSubscriber c rows = map_option is_active (find (\<lambda>x. chat_id x = c) rows)"

definition stmt_logAction :: "int \<Rightarrow> string \<Rightarrow> (int \<times> string) list \<Rightarrow> (int \<times> string) list" where
  "stmt_logAction c a h = h @ [(c, a)]"

definition addSubscriber :: "Subscriber \<Rightarrow> database \<Rightarrow> database" where
  "addSubscriber subscriber db =
     db\<lparr>subscribers :=
          stmt_addSubscriber
            \<lparr>chat_id = chatId subscriber,
             username = or_absent (Subscriber.username subscriber),
             first_name = or_absent (firstName subscriber),
             last_name = or_absent (lastName subscriber),
             is_active = 1\<rparr>
            (subscribers db),
        subscription_history :=
          stmt_logAction (chatId subscriber) ''subscribe'' (subscription_history db)\<rparr>"

definition removeSubscriber :: "int \<Rightarrow> database \<Rightarrow> bool \<times> database" where
  "removeSubscriber c db =
     (let (changes, rows) = stmt_deactivateSubscriber c (subscribers db);
          db1 = db\<lparr>subscribers := rows\<rparr>
      in if changes > 0
         then (True, db1\<lparr>subscription_history :=
                            stmt_logAction c ''unsubscribe'' (subscription_history db1)\<rparr>)
         else (False, db1))"

definition toSubscriber :: "row \<Rightarrow> Subscriber" where
  "toSubscriber r =
     \<lparr>chatId = chat_id r,
      username = or_absent (row.username r),
      firstName = or_absent (first_name r),
      lastName = or_absent (last_name r)\<rparr>"

definition getActiveSubscribers :: "database \<Rightarrow> Subscriber list" where
  "getActiveSubscribers db = map toSubscriber (stmt_getActiveSubscribers (subscribers db))"

definition isSubscribed :: "int \<Rightarrow> database \<Rightarrow> bool" where
  "isSubscribed c db = (stmt_checkSubscriber c (subscribers db) = Some 1)"

section \<open>Values of the availability source (JSON) and JavaScript truthiness\<close>

text \<open>
  The payload of a response is whatever JSON the source sent (axios leaves a body that is
  not JSON as a string). A JavaScript value that may be \<open>undefined\<close> is a \<open>json option\<close>.
  The program tests a number for zero, interpolates it into a string or passes it on, and
  none of these can raise, so numbers are integers here.
\<close>

datatype json =
    JNull
  | JBool bool
  | JNum int
  | JStr string
  | JArr "json list"
  | JObj "(string \<times> json) list"

fun truthy :: "json option \<Rightarrow> bool" where
  "truthy None = False"
| "truthy (Some JNull) = False"
| "truthy (Some (JBool b)) = b"
| "truthy (Some (JNum n)) = (n \<noteq> 0)"
| "truthy (Some (JStr t)) = (t \<noteq> [])"
| "truthy (Some (JArr xs)) = True"
| "truthy (Some (JObj kvs)) = True"

text \<open>
  Reading one of the named properties the program reads (\<open>success\<close>, \<open>result\<close>,
  \<open>storeName\<close>, ...) off a value that is not \<open>null\<close>: only an object can hold one (the
  last of duplicate keys wins in \<open>JSON.parse\<close>); a string, number, boolean or array gives
  \<open>undefined\<close>. Reading a property of \<open>null\<close> raises a TypeError, which every call site
  below writes out.
\<close>

fun getProp :: "json \<Rightarrow> string \<Rightarrow> json option" where
  "getProp (JObj kvs) k = map_of (rev kvs) k"
| "getProp v k = None"

text \<open>
  Interpolating a value into a template literal converts it to a string. \<open>undefined\<close>,
  \<open>null\<close>, a boolean, a number and a string always convert. An object converts through
  its \<open>toString\<close>, then its \<open>valueOf\<close>: an object parsed from JSON that has a key
  \<open>toString\<close> of its own hides the inherited method behind a value that cannot be
  called, \<open>valueOf\<close> gives back the object, and the conversion raises a TypeError; any
  other object converts. An array converts by joining its elements, each converted in
  turn (\<open>null\<close> elements give the empty string).
\<close>

fun stringifiable :: "json \<Rightarrow> bool" where
  "stringifiable JNull = True"
| "stringifiable (JBool b) = True"
| "stringifiable (JNum n) = True"
| "stringifiable (JStr t) = True"
| "stringifiable (JArr xs) = list_all stringifiable xs"
| "stringifiable (JObj kvs) = (map_of (rev kvs) ''toString'' = None)"

fun canStringify :: "json option \<Rightarrow> bool" where
  "canStringify None = True"
| "canStringify (Some v) = stringifiable v"

section \<open>The polling engine (index.ts)\<close>

text \<open>
  Modelled: \<open>checkDrug\<close>, \<open>sendNotificationToSubscribers\<close>, \<open>checkAllDrugs\<close>,
  \<open>scheduleRetryForErrors\<close> with its timer callback, and the module state they share.
  Not modelled: the configuration check at startup, the three bot commands and the cron
  registration; a scheduled or manual trigger is an invocation of \<open>checkAllDrugs\<close>.
\<close>

subsection \<open>Strings\<close>

text \<open>
  A string is the list of the bytes of its well-formed UTF-8 encoding (Node decodes the
  environment and the response body from UTF-8). \<open>split\<close> at an ASCII separator,
  \<open>join\<close> and \<open>includes\<close> of an ASCII text are the same on bytes as on UTF-16 code
  units. \<open>String.prototype.toLowerCase\<close> is Unicode aware and is a parameter of the
  environment below.
\<close>

fun split :: "char \<Rightarrow> string \<Rightarrow> string list" where
  "split sep [] = [[]]"
| "split sep (c # cs) =
     (if c = sep then [] # split sep cs
      else (case split sep cs of [] \<Rightarrow> [[c]] | w # ws \<Rightarrow> (c # w) # ws))"

fun join :: "string \<Rightarrow> string list \<Rightarrow> string" where
  "join sep [] = []"
| "join sep [w] = w"
| "join sep (w # v # ws) = w @ sep @ join sep (v # ws)"

text \<open>
  \<open>String.prototype.trim\<close> removes white space and line terminators from both ends: the
  code points U+0009 to U+000D, U+0020, U+00A0, U+1680, U+2000 to U+200A, U+2028, U+2029,
  U+202F, U+205F, U+3000 and U+FEFF, here by their UTF-8 encodings. In well-formed UTF-8 a
  string begins (ends) with a code point exactly when its bytes begin (end) with the
  encoding of that code point.
\<close>

definition whiteSpace :: "string list" where
  "whiteSpace =
     [[CHR 0x09], [CHR 0x0A], [CHR 0x0B], [CHR 0x0C], [CHR 0x0D], [CHR 0x20],
      [CHR 0xC2, CHR 0xA0],
      [CHR 0xE1, CHR 0x9A, CHR 0x80],
      [CHR 0xE2, CHR 0x80, CHR 0x80], [CHR 0xE2, CHR 0x80, CHR 0x81],
      [CHR 0xE2, CHR 0x80, CHR 0x82], [CHR 0xE2, CHR 0x80, CHR 0x83],
      [CHR 0xE2, CHR 0x80, CHR 0x84], [CHR 0xE2, CHR 0x80, CHR 0x85],
      [CHR 0xE2, CHR 0x80, CHR 0x86], [CHR 0xE2, CHR 0x80, CHR 0x87],
      [CHR 0xE2, CHR 0x80, CHR 0x88], [CHR 0xE2, CHR 0x80, CHR 0x89],
      [CHR 0xE2, CHR 0x80, CHR 0x8A],
      [CHR 0xE2, CHR 0x80, CHR 0xA8], [CHR 0xE2, CHR 0x80, CHR 0xA9],
      [CHR 0xE2, CHR 0x80, CHR 0xAF],
      [CHR 0xE2, CHR 0x81, CHR 0x9F],
      [CHR 0xE3, CHR 0x80, CHR 0x80],
      [CHR 0xEF, CHR 0xBB, CHR 0xBF]]"

function strip :: "string list \<Rightarrow> string \<Rightarrow> string" where
  "strip ws t =
     (case find (\<lambda>w. w \<noteq> [] \<and> prefix w t) ws of
        None \<Rightarrow> t
      | Some w \<Rightarrow> strip ws (drop (length w) t))"
  by pat_completeness auto
termination
  by (relation "measure (\<lambda>(ws, t). length t)") (auto simp: find_Some_iff prefix_def)

definition trimStart :: "string \<Rightarrow> string" where
  "trimStart t = strip whiteSpace t"

definition trimEnd :: "string \<Rightarrow> string" where
  "trimEnd t = rev (strip (map rev whiteSpace) (rev t))"

definition trim :: "string \<Rightarrow> string" where
  "trim t = trimEnd (trimStart t)"

fun includes_str :: "string \<Rightarrow> string \<Rightarrow> bool" where
  "includes_str [] sub = (sub = [])"
| "includes_str (c # cs) sub = (prefix sub (c # cs) \<or> includes_str cs sub)"

subsection \<open>The outside world\<close>

text \<open>
  What \<open>axios.get\<close> can do: resolve with a response (a 2xx status and the payload), reject
  with a response (any other status), or reject without one (timeout, network error, or an error before the request is sent).
\<close>

datatype api_outcome =
    Response nat json
  | HttpError nat json
  | NoResponse

text \<open>
  What \<open>bot.sendMessage\<close> can do: resolve, or reject with a thrown value, which is an
  \<open>Error\<close> object with its message or something else.
\<close>

datatype thrown = ErrorObject string | NotAnError

datatype send_outcome = Delivered | Rejected thrown

text \<open>The errors that \<open>checkDrug\<close> and \<open>sendNotificationToSubscribers\<close> throw.\<close>

datatype error =
    HttpStatusError nat json
  | NoResponseError
  | ApiError "json option"
  | UnexpectedFormat
  | TypeError

record DrugCheckResult =
  isAvailable :: bool
  pharmacyCount :: "nat option"
  pharmacies :: "json list option"

text \<open>
  The notification text is kept structured: which of the two templates it is, and the
  values interpolated into it. The entries stand in list order (the template numbers
  them from 1).
\<close>

record entry =
  storeName :: "json option"
  storeAddress :: "json option"
  storeDistrict :: "json option"
  storeWorkingTime :: string
  drugName :: "json option"

datatype message =
    Available string nat "entry list"
  | NotAvailable string

text \<open>
  The calls the claims observe, in the order they are made: \<open>checkDrug\<close>,
  \<open>sendNotificationToSubscribers\<close>, \<open>getActiveSubscribers\<close> (from index.ts),
  \<open>bot.sendMessage\<close>, and the one log line of the run guard. The other log lines are not
  modelled.
\<close>

datatype event =
    Query string
  | Notify string DrugCheckResult
  | ListActive
  | Send int message
  | LogSkipped

text \<open>
  The environment: the configured item list, and what the availability source and the
  message transport answer to the n-th request and the n-th delivery of the process.
\<close>

record env =
  DRUGS_TO_CHECK :: "string option"
  toLowerCase :: "string \<Rightarrow> string"
  axios_get :: "nat \<Rightarrow> string \<Rightarrow> api_outcome"
  bot_sendMessage :: "nat \<Rightarrow> int \<Rightarrow> message \<Rightarrow> send_outcome"

text \<open>
  The module state of index.ts. \<open>apiErrorDrugs\<close> is a JavaScript \<open>Set\<close>, which keeps
  insertion order: a list without duplicates. A pending \<open>setTimeout\<close> is its handle in
  \<open>timers\<close>; the only callback ever scheduled is the retry wave, and \<open>timerCount\<close> is the
  next fresh handle. \<open>requests\<close> and \<open>sends\<close> count the requests and deliveries made so
  far. Real time is not modelled: a pending timer may fire at any later moment.
\<close>

record state =
  isChecking :: bool
  apiErrorDrugs :: "string list"
  retryTimer :: "nat option"
  timers :: "nat list"
  timerCount :: nat
  db :: database
  requests :: nat
  sends :: nat
  trace :: "event list"

definition set_add :: "string \<Rightarrow> string list \<Rightarrow> string list" where
  "set_add x xs = (if x \<in> set xs then xs else xs @ [x])"

definition setTimeout :: "state \<Rightarrow> nat \<times> state" where
  "setTimeout s =
     (timerCount s, s\<lparr>timers := timers s @ [timerCount s], timerCount := Suc (timerCount s)\<rparr>)"

definition clearTimeout :: "nat \<Rightarrow> state \<Rightarrow> state" where
  "clearTimeout t s = s\<lparr>timers := removeAll t (timers s)\<rparr>"

subsection \<open>checkDrug\<close>

text \<open>
  The body of the \<open>try\<close> once \<open>axios.get\<close> has resolved with the payload \<open>data\<close>.
  Where \<open>success\<close> is \<open>false\<close>, the two log lines interpolate \<open>message\<close>, \<open>errorCode\<close>
  and \<open>requestId\<close> before the \<open>Error\<close> is made: a value that cannot be converted to a
  string raises a TypeError instead. A truthy \<open>result\<close> that is not an array has no
  \<open>slice\<close> or no \<open>forEach\<close> to call: a TypeError. For a list that is not empty, the log
  line for each of the first three pharmacies reads \<open>pharmacy.storeName\<close>, which raises
  on \<open>null\<close>, and interpolates \<open>storeName\<close>, \<open>storeDistrict\<close> and \<open>drugName\<close>
  (\<open>loggable\<close>): a TypeError again. Every error is logged by the \<open>catch\<close> and thrown
  again.
\<close>

definition loggable :: "json \<Rightarrow> bool" where
  "loggable pharmacy =
     (pharmacy \<noteq> JNull
      \<and> canStringify (getProp pharmacy ''storeName'')
      \<and> canStringify (getProp pharmacy ''storeDistrict'')
      \<and> canStringify (getProp pharmacy ''drugName''))"

definition parseResponse :: "json \<Rightarrow> error + DrugCheckResult" where
  "parseResponse data =
     (if truthy (Some data) \<and> getProp data ''success'' = Some (JBool False)
      then (if canStringify (getProp data ''message'')
                \<and> canStringify (getProp data ''errorCode'')
                \<and> canStringify (getProp data ''requestId'')
            then Inl (ApiError (getProp data ''message''))
            else Inl TypeError)
      else if truthy (Some data) \<and> truthy (getProp data ''success'')
                \<and> truthy (getProp data ''result'')
      then (case getProp data ''result'' of
              Some (JArr ps) \<Rightarrow>
                (if length ps > 0 \<and> \<not> list_all loggable (take 3 ps) then Inl TypeError
                 else Inr \<lparr>isAvailable = (length ps > 0),
                           pharmacyCount = Some (length ps),
                           pharmacies = Some (take 3 ps)\<rparr>)
            | _ \<Rightarrow> Inl TypeError)
      else Inl UnexpectedFormat)"

definition checkDrug :: "env \<Rightarrow> string \<Rightarrow> state \<Rightarrow> (error + DrugCheckResult) \<times> state" where
  "checkDrug e name s =
     (let outcome = axios_get e (requests s) (toLowerCase e name);
          s1 = s\<lparr>requests := Suc (requests s), trace := trace s @ [Query name]\<rparr>
      in (case outcome of
            Response status data \<Rightarrow> parseResponse data
          | HttpError status data \<Rightarrow> Inl (HttpStatusError status data)
          | NoResponse \<Rightarrow> Inl NoResponseError,
          s1))"

subsection \<open>sendNotificationToSubscribers\<close>

text \<open>
  One entry of the "available" template. It reads \<open>pharmacy.storeName\<close>, which raises on
  a \<open>null\<close> pharmacy; it interpolates \<open>storeName\<close>, \<open>storeAddress\<close>, \<open>storeDistrict\<close>
  and \<open>drugName\<close>, which raises for a value that cannot be converted to a string; and
  \<open>pharmacy.storeWorkingTime.split(' ')\<close> needs a string. Each of these is a TypeError.
\<close>

definition formatEntry :: "json \<Rightarrow> error + entry" where
  "formatEntry pharmacy =
     (if pharmacy = JNull then Inl TypeError
      else if \<not> canStringify (getProp pharmacy ''storeName'') then Inl TypeError
      else if \<not> canStringify (getProp pharmacy ''storeAddress'') then Inl TypeError
      else if \<not> canStringify (getProp pharmacy ''storeDistrict'') then Inl TypeError
      else (case getProp pharmacy ''storeWorkingTime'' of
              Some (JStr w) \<Rightarrow>
                (if \<not> canStringify (getProp pharmacy ''drugName'') then Inl TypeError
                 else Inr \<lparr>storeName = getProp pharmacy ''storeName'',
                           storeAddress = getProp pharmacy ''storeAddress'',
                           storeDistrict = getProp pharmacy ''storeDistrict'',
                           storeWorkingTime = join '' '' (take 4 (split CHR '' '' w)),
                           drugName = getProp pharmacy ''drugName''\<rparr>)
            | _ \<Rightarrow> Inl TypeError))"

fun formatEntries :: "json list \<Rightarrow> error + entry list" where
  "formatEntries [] = Inr []"
| "formatEntries (p # ps) =
     (case formatEntry p of
        Inl err \<Rightarrow> Inl err
      | Inr x \<Rightarrow> (case formatEntries ps of Inl err \<Rightarrow> Inl err | Inr xs \<Rightarrow> Inr (x # xs)))"

definition formatMessage :: "string \<Rightarrow> DrugCheckResult \<Rightarrow> error + message" where
  "formatMessage name result =
     (case (pharmacyCount result, pharmacies result) of
        (Some n, Some ps) \<Rightarrow>
          (if isAvailable result \<and> n \<noteq> 0
           then (case formatEntries ps of
                   Inl err \<Rightarrow> Inl err
                 | Inr xs \<Rightarrow> Inr (Available name n xs))
           else Inr (NotAvailable name))
      | _ \<Rightarrow> Inr (NotAvailable name))"

text \<open>
  The permanent-failure test of the \<open>catch\<close>:
  \<open>error instanceof Error && error.message.includes('bot was blocked')\<close>.
\<close>

fun botWasBlocked :: "thrown \<Rightarrow> bool" where
  "botWasBlocked (ErrorObject m) = includes_str m ''bot was blocked''"
| "botWasBlocked NotAnError = False"

text \<open>
  The \<open>for\<close> loop over the subscribers. The two counters of the loop are only logged and
  are left out.
\<close>

fun deliver :: "env \<Rightarrow> message \<Rightarrow> Subscriber list \<Rightarrow> state \<Rightarrow> state" where
  "deliver e msg [] s = s"
| "deliver e msg (subscriber # rest) s =
     (let outcome = bot_sendMessage e (sends s) (chatId subscriber) msg;
          s1 = s\<lparr>sends := Suc (sends s), trace := trace s @ [Send (chatId subscriber) msg]\<rparr>;
          s2 = (case outcome of
                  Delivered \<Rightarrow> s1
                | Rejected err \<Rightarrow>
                    (if botWasBlocked err
                     then s1\<lparr>db := snd (removeSubscriber (chatId subscriber) (db s1))\<rparr>
                     else s1))
      in deliver e msg rest s2)"

definition sendNotificationToSubscribers ::
  "env \<Rightarrow> string \<Rightarrow> DrugCheckResult \<Rightarrow> state \<Rightarrow> (error + unit) \<times> state" where
  "sendNotificationToSubscribers e name result s =
     (let s0 = s\<lparr>trace := trace s @ [Notify name result]\<rparr>;
          subscribers = getActiveSubscribers (db s0);
          s1 = s0\<lparr>trace := trace s0 @ [ListActive]\<rparr>
      in if length subscribers = 0 then (Inr (), s1)
         else (case formatMessage name result of
                 Inl err \<Rightarrow> (Inl err, s1)
               | Inr msg \<Rightarrow> (Inr (), deliver e msg subscribers s1)))"

subsection \<open>The retry wave\<close>

text \<open>The body of the \<open>for\<close> loop of the timer callback: every error is logged and dropped.\<close>

definition retryItem :: "env \<Rightarrow> string \<Rightarrow> state \<Rightarrow> state" where
  "retryItem e drug s =
     (case checkDrug e drug s of
        (Inl err, s1) \<Rightarrow> s1
      | (Inr result, s1) \<Rightarrow> snd (sendNotificationToSubscribers e drug result s1))"

fun retryLoop :: "env \<Rightarrow> string list \<Rightarrow> state \<Rightarrow> state" where
  "retryLoop e [] s = s"
| "retryLoop e (drug # rest) s = retryLoop e rest (retryItem e drug s)"

definition retryCallback :: "env \<Rightarrow> state \<Rightarrow> state" where
  "retryCallback e s =
     (if length (apiErrorDrugs s) > 0
      then (let drugsToRetry = apiErrorDrugs s;
                s1 = s\<lparr>apiErrorDrugs := []\<rparr>
            in retryLoop e drugsToRetry s1)
      else s)"

definition scheduleRetryForErrors :: "state \<Rightarrow> state" where
  "scheduleRetryForErrors s =
     (if length (apiErrorDrugs s) > 0
      then (let s1 = (case retryTimer s of Some t \<Rightarrow> clearTimeout t s | None \<Rightarrow> s);
                (t, s2) = setTimeout s1
            in s2\<lparr>retryTimer := Some t\<rparr>)
      else s)"

text \<open>The event loop fires a pending timer: its callback runs; a cleared one never does.\<close>

definition fireTimer :: "env \<Rightarrow> nat \<Rightarrow> state \<Rightarrow> state" where
  "fireTimer e t s =
     (if t \<in> set (timers s) then retryCallback e (s\<lparr>timers := removeAll t (timers s)\<rparr>)
      else s)"

subsection \<open>checkAllDrugs\<close>

text \<open>The default item name of the source, the Cyrillic word for Pentasa, as UTF-8.\<close>

definition defaultDrug :: string where
  "defaultDrug =
     [CHR 0xD0, CHR 0x9F, CHR 0xD0, CHR 0xB5, CHR 0xD0, CHR 0xBD, CHR 0xD1, CHR 0x82,
      CHR 0xD0, CHR 0xB0, CHR 0xD1, CHR 0x81, CHR 0xD0, CHR 0xB0]"

definition configuredDrugs :: "env \<Rightarrow> string list" where
  "configuredDrugs e =
     map trim (split CHR '',''
       (case DRUGS_TO_CHECK e of
          None \<Rightarrow> defaultDrug
        | Some v \<Rightarrow> (if v = [] then defaultDrug else v)))"

text \<open>
  The body of the \<open>for\<close> loop: the \<open>catch\<close> takes whatever \<open>checkDrug\<close> or
  \<open>sendNotificationToSubscribers\<close> throws.
\<close>

definition checkItem :: "env \<Rightarrow> string \<Rightarrow> state \<Rightarrow> state" where
  "checkItem e drug s =
     (case checkDrug e drug s of
        (Inl err, s1) \<Rightarrow> s1\<lparr>apiErrorDrugs := set_add drug (apiErrorDrugs s1)\<rparr>
      | (Inr result, s1) \<Rightarrow>
          (case sendNotificationToSubscribers e drug result s1 of
             (Inl err, s2) \<Rightarrow> s2\<lparr>apiErrorDrugs := set_add drug (apiErrorDrugs s2)\<rparr>
           | (Inr u, s2) \<Rightarrow> s2))"

fun checkLoop :: "env \<Rightarrow> string list \<Rightarrow> state \<Rightarrow> state" where
  "checkLoop e [] s = s"
| "checkLoop e (drug # rest) s = checkLoop e rest (checkItem e drug s)"

text \<open>
  Each \<open>async\<close> function is run to its end: what an \<open>await\<close> waits for is answered by the
  environment at once, and no other task runs in between. \<open>runStart\<close> is the state in
  which the loop of a run begins.
\<close>

definition runStart :: "state \<Rightarrow> state" where
  "runStart s = s\<lparr>isChecking := True, trace := trace s @ [ListActive]\<rparr>"

definition checkAllDrugs :: "env \<Rightarrow> state \<Rightarrow> state" where
  "checkAllDrugs e s =
     (if isChecking s then s\<lparr>trace := trace s @ [LogSkipped]\<rparr>
      else (let drugs = configuredDrugs e;
                s1 = checkLoop e drugs (runStart s);
                s2 = scheduleRetryForErrors s1
            in s2\<lparr>isChecking := False\<rparr>))"

section \<open>Reading a trace\<close>

text \<open>
  The projections of a trace onto one kind of call, and the calls made between two
  states. \<open>permanentFailure\<close> is the test of the delivery loop applied to what a
  delivery answered.
\<close>

fun queries :: "event list \<Rightarrow> string list" where
  "queries [] = []"
| "queries (Query d # es) = d # queries es"
| "queries (ev # es) = queries es"

fun notified :: "event list \<Rightarrow> string list" where
  "notified [] = []"
| "notified (Notify d r # es) = d # notified es"
| "notified (ev # es) = notified es"

fun deliveries :: "event list \<Rightarrow> (int \<times> message) list" where
  "deliveries [] = []"
| "deliveries (Send c m # es) = (c, m) # deliveries es"
| "deliveries (ev # es) = deliveries es"

fun reads :: "event list \<Rightarrow> nat" where
  "reads [] = 0"
| "reads (ListActive # es) = Suc (reads es)"
| "reads (ev # es) = reads es"

definition since :: "state \<Rightarrow> state \<Rightarrow> event list" where
  "since s s' = drop (length (trace s)) (trace s')"

fun permanentFailure :: "send_outcome \<Rightarrow> bool" where
  "permanentFailure Delivered = False"
| "permanentFailure (Rejected err) = botWasBlocked err"

text \<open>
  The timers of a state that the program can reach: at most one timer is pending, it is
  the one \<open>retryTimer\<close> names, the set of failed items is not empty while it is
  pending, and handles are not reused.
\<close>

definition timersOk :: "state \<Rightarrow> bool" where
  "timersOk s =
     (case retryTimer s of
        None \<Rightarrow> timers s = []
      | Some t \<Rightarrow>
          t < timerCount s \<and> (timers s = [] \<or> (timers s = [t] \<and> apiErrorDrugs s \<noteq> [])))"

section \<open>Concrete registries, payloads and environments\<close>

text \<open>
  The inputs at which the theorems below are instantiated. A registry is built by the
  program's own \<open>addSubscriber\<close>; \<open>startup\<close> is the module state when index.ts has been
  loaded.
\<close>

definition emptyDb :: database where
  "emptyDb = \<lparr>subscribers = [], subscription_history = []\<rparr>"

definition person :: "int \<Rightarrow> Subscriber" where
  "person c = \<lparr>chatId = c, username = None, firstName = Some ''User'', lastName = None\<rparr>"

definition registryOf :: "int list \<Rightarrow> database" where
  "registryOf cs = foldl (\<lambda>reg c. addSubscriber (person c) reg) emptyDb cs"

definition startup :: "database \<Rightarrow> state" where
  "startup reg =
     \<lparr>isChecking = False, apiErrorDrugs = [], retryTimer = None, timers = [], timerCount = 0,
      db = reg, requests = 0, sends = 0, trace = []\<rparr>"

definition pharmacyA :: json where
  "pharmacyA =
     JObj [(''storeName'', JStr ''Apteka 1''), (''storeAddress'', JStr ''Nevsky 1''),
           (''storeDistrict'', JStr ''Central''),
           (''storeWorkingTime'', JStr ''Mon-Sun 09:00 - 21:00 no break''),
           (''drugName'', JStr ''Pentasa 500'')]"

definition found :: "json list \<Rightarrow> api_outcome" where
  "found ps = Response 200 (JObj [(''success'', JBool True), (''result'', JArr ps)])"

definition world ::
  "string \<Rightarrow> (nat \<Rightarrow> string \<Rightarrow> api_outcome) \<Rightarrow> (nat \<Rightarrow> int \<Rightarrow> message \<Rightarrow> send_outcome) \<Rightarrow> env" where
  "world items api transport =
     \<lparr>DRUGS_TO_CHECK = Some items, toLowerCase = (\<lambda>t. t), axios_get = api,
      bot_sendMessage = transport\<rparr>"

definition blockedBy :: "int \<Rightarrow> nat \<Rightarrow> int \<Rightarrow> message \<Rightarrow> send_outcome" where
  "blockedBy c n c' m =
     (if c' = c
      then Rejected (ErrorObject ''ETELEGRAM: 403 Forbidden: bot was blocked by the user'')
      else Delivered)"

definition allDelivered :: "nat \<Rightarrow> int \<Rightarrow> message \<Rightarrow> send_outcome" where
  "allDelivered n c m = Delivered"

definition answering :: "api_outcome \<Rightarrow> nat \<Rightarrow> string \<Rightarrow> api_outcome" where
  "answering out n nom = out"

definition refusal :: json where
  "refusal = JObj [(''success'', JBool False), (''message'', JStr ''Service unavailable''),
                   (''errorCode'', JNum 500)]"

definition garbled :: json where
  "garbled = JObj [(''success'', JBool True), (''result'', JStr ''maintenance'')]"

definition pharmacyB :: json where
  "pharmacyB =
     JObj [(''storeName'', JStr ''Apteka 2''), (''storeAddress'', JStr ''Sadovaya 5''),
           (''storeDistrict'', JStr ''Admiralty''),
           (''storeWorkingTime'', JStr ''daily''),
           (''drugName'', JStr ''Pentasa 1000'')]"


definition calm :: env where
  "calm = world ''a, b'' (answering (found [pharmacyA])) allDelivered"

definition flaky :: env where
  "flaky = world ''a, b, c''
     (\<lambda>n nom. if n = 1 then NoResponse else found [pharmacyA]) allDelivered"

definition dead :: env where
  "dead = world ''a'' (answering NoResponse) allDelivered"

definition mixed :: "nat \<Rightarrow> int \<Rightarrow> message \<Rightarrow> send_outcome" where
  "mixed n c m =
     (if c = 2
      then Rejected (ErrorObject ''ETELEGRAM: 403 Forbidden: bot was blocked by the user'')
      else if c = 3
      then Rejected (ErrorObject ''ETELEGRAM: 429 Too Many Requests: retry after 5'')
      else Delivered)"

definition sampleResult :: DrugCheckResult where
  "sampleResult = \<lparr>isAvailable = True, pharmacyCount = Some 5, pharmacies = Some [pharmacyA, pharmacyB]\<rparr>"

definition sampleMessage :: message where
  "sampleMessage =
     Available ''a'' 5
       [\<lparr>storeName = Some (JStr ''Apteka 1''), storeAddress = Some (JStr ''Nevsky 1''),
         storeDistrict = Some (JStr ''Central''), storeWorkingTime = ''Mon-Sun 09:00 - 21:00'',
         drugName = Some (JStr ''Pentasa 500'')\<rparr>,
        \<lparr>storeName = Some (JStr ''Apteka 2''), storeAddress = Some (JStr ''Sadovaya 5''),
         storeDistrict = Some (JStr ''Admiralty''), storeWorkingTime = ''daily'',
         drugName = Some (JStr ''Pentasa 1000'')\<rparr>]"

definition pharmacyNoHours :: json where
  "pharmacyNoHours = JObj [(''storeName'', JStr ''Apteka 3''), (''drugName'', JStr ''Pentasa 500'')]"

definition noHours :: env where
  "noHours = world ''a'' (answering (found [pharmacyNoHours])) allDelivered"

definition noHoursResult :: DrugCheckResult where
  "noHoursResult = \<lparr>isAvailable = True, pharmacyCount = Some 1, pharmacies = Some [pharmacyNoHours]\<rparr>"

definition unstable :: env where
  "unstable = world ''a'' (answering (found [pharmacyA])) mixed"

definition snapshotEnv :: env where
  "snapshotEnv = world ''a, b'' (answering (found [pharmacyA])) (blockedBy 2)"

definition shifting :: env where
  "shifting = world ''a, b''
     (\<lambda>n nom. if n = 0 \<or> n = 3 then NoResponse else found []) allDelivered"

section \<open>Properties of the registry\<close>

lemma removeSubscriber_returns:
  "fst (removeSubscriber c reg) = (c \<in> chat_id ` set (subscribers reg))"
  by (auto simp: removeSubscriber_def stmt_deactivateSubscriber_def Let_def filter_empty_conv)

lemma find_stmt_addSubscriber:
  "find (\<lambda>x. chat_id x = chat_id r) (stmt_addSubscriber r rows) = Some r"
  unfolding stmt_addSubscriber_def by (induction rows) auto

lemma filter_stmt_addSubscriber:
  "filter (\<lambda>x. chat_id x = chat_id r) (stmt_addSubscriber r rows) = [r]"
  unfolding stmt_addSubscriber_def by (induction rows) auto

lemma or_absent_idem: "or_absent (or_absent v) = or_absent v"
  by (simp add: or_absent_def split: option.splits)

text \<open>
  Claim C9 (deactivation result). The claim: \<open>removeSubscriber\<close> returns true exactly when
  the recipient was active before the call, and false when it was already inactive. The
  code returns whether \<open>UPDATE ... WHERE chat_id = ?\<close> wrote a row, and that statement
  writes the row of an inactive recipient too (lemma \<open>removeSubscriber_returns\<close>: the
  result is whether a row with this \<open>chat_id\<close> exists). Here recipient 7 subscribes and is
  deactivated; it is then not subscribed, and a second \<open>removeSubscriber\<close> still
  returns true.
\<close>

theorem removeSubscriber_already_inactive:
  "\<not> isSubscribed 7 (snd (removeSubscriber 7 (registryOf [7]))) \<and>
   fst (removeSubscriber 7 (snd (removeSubscriber 7 (registryOf [7])))) = True"
  by code_simp

text \<open>
  Claim C10 (re-subscription reactivates). After \<open>addSubscriber sub\<close>, on any registry:
  \<open>isSubscribed\<close> holds for \<open>sub\<close>'s chat; the active list holds exactly one subscriber
  with that chat id, and it carries \<open>sub\<close>'s fields as \<open>||\<close> stores and reads them
  (an empty string comes back absent); the table holds exactly one row for the chat, active
  and with the new field values, whatever was stored before; when no field of \<open>sub\<close> is
  the empty string, \<open>sub\<close> itself is in the active list; and the same holds right after a
  \<open>removeSubscriber\<close> of that chat.
\<close>

theorem addSubscriber_reactivates:
  fixes sub :: Subscriber
  shows
  "isSubscribed (chatId sub) (addSubscriber sub reg)
   \<and> filter (\<lambda>x. chatId x = chatId sub) (getActiveSubscribers (addSubscriber sub reg)) =
       [\<lparr>chatId = chatId sub, username = or_absent (Subscriber.username sub),
         firstName = or_absent (firstName sub), lastName = or_absent (lastName sub)\<rparr>]
   \<and> filter (\<lambda>x. chat_id x = chatId sub) (subscribers (addSubscriber sub reg)) =
       [\<lparr>chat_id = chatId sub, username = or_absent (Subscriber.username sub),
         first_name = or_absent (firstName sub), last_name = or_absent (lastName sub),
         is_active = 1\<rparr>]
   \<and> (Subscriber.username sub \<noteq> Some [] \<and> firstName sub \<noteq> Some [] \<and> lastName sub \<noteq> Some []
        \<longrightarrow> sub \<in> set (getActiveSubscribers (addSubscriber sub reg)))
   \<and> isSubscribed (chatId sub)
        (addSubscriber sub (snd (removeSubscriber (chatId sub) reg)))"
proof -
  define r where "r = \<lparr>chat_id = chatId sub, username = or_absent (Subscriber.username sub),
         first_name = or_absent (firstName sub), last_name = or_absent (lastName sub),
         is_active = 1\<rparr>"
  define v where "v = \<lparr>chatId = chatId sub, username = or_absent (Subscriber.username sub),
         firstName = or_absent (firstName sub), lastName = or_absent (lastName sub)\<rparr>"
  have cr: "chat_id r = chatId sub"
    by (simp add: r_def)
  have rows: "subscribers (addSubscriber sub g) = stmt_addSubscriber r (subscribers g)" for g
    by (simp add: addSubscriber_def r_def)
  have active: "isSubscribed (chatId sub) (addSubscriber sub g)" for g
    using find_stmt_addSubscriber[of r "subscribers g"]
    by (simp add: isSubscribed_def stmt_checkSubscriber_def rows cr) (simp add: r_def)
  have stored: "filter (\<lambda>x. chat_id x = chatId sub) (subscribers (addSubscriber sub reg)) = [r]"
    using filter_stmt_addSubscriber[of r "subscribers reg"] by (simp add: rows cr)
  have "filter (\<lambda>x. chatId x = chatId sub) (getActiveSubscribers (addSubscriber sub reg))
      = map toSubscriber (filter (\<lambda>x. is_active x = 1)
          (filter (\<lambda>x. chat_id x = chatId sub) (subscribers (addSubscriber sub reg))))"
    by (simp add: getActiveSubscribers_def stmt_getActiveSubscribers_def filter_map o_def
        toSubscriber_def conj_commute)
  also have "\<dots> = [v]"
    by (simp add: stored) (simp add: r_def v_def toSubscriber_def or_absent_idem)
  finally have listed:
    "filter (\<lambda>x. chatId x = chatId sub) (getActiveSubscribers (addSubscriber sub reg)) = [v]" .
  then have "v \<in> set (filter (\<lambda>x. chatId x = chatId sub)
      (getActiveSubscribers (addSubscriber sub reg)))"
    by simp
  then have vin: "v \<in> set (getActiveSubscribers (addSubscriber sub reg))"
    by simp
  have same: "v = sub"
    if "Subscriber.username sub \<noteq> Some [] \<and> firstName sub \<noteq> Some [] \<and> lastName sub \<noteq> Some []"
    using that by (simp add: v_def or_absent_def split: option.splits)
  show ?thesis
    using active stored listed vin same unfolding r_def v_def by auto
qed

theorem addSubscriber_reactivates_witness:
  "\<not> isSubscribed 7 (snd (removeSubscriber 7 (registryOf [7])))
   \<and> isSubscribed 7 (addSubscriber (person 7) (snd (removeSubscriber 7 (registryOf [7]))))
   \<and> person 7 \<in> set (getActiveSubscribers
        (addSubscriber (person 7) (snd (removeSubscriber 7 (registryOf [7])))))"
proof -
  have before: "\<not> isSubscribed 7 (snd (removeSubscriber 7 (registryOf [7])))"
    by code_simp
  have fields: "Subscriber.username (person 7) \<noteq> Some [] \<and> firstName (person 7) \<noteq> Some []
      \<and> lastName (person 7) \<noteq> Some []" "chatId (person 7) = 7"
    by (simp_all add: person_def)
  show ?thesis
    using before fields
      addSubscriber_reactivates[of "person 7" "snd (removeSubscriber 7 (registryOf [7]))"]
    by simp
qed

section \<open>Properties of the availability client\<close>

lemma getProp_Some_truthy: "getProp data k = Some v \<Longrightarrow> truthy (Some data)"
  by (cases data) auto

lemma parseResponse_Inr_iff:
  "parseResponse data = Inr r \<longleftrightarrow>
     (\<exists>ps. truthy (getProp data ''success'') \<and> getProp data ''result'' = Some (JArr ps)
        \<and> list_all loggable (take 3 ps)
        \<and> r = \<lparr>isAvailable = (ps \<noteq> []), pharmacyCount = Some (length ps),
                pharmacies = Some (take 3 ps)\<rparr>)"
proof (cases "getProp data ''result''")
  case None
  then show ?thesis by (simp add: parseResponse_def)
next
  case (Some v)
  then have t: "truthy (Some data)" by (rule getProp_Some_truthy)
  show ?thesis
    using Some t by (cases v) (auto simp: parseResponse_def)
qed

lemma checkDrug_fst:
  "fst (checkDrug e name s) =
     (case axios_get e (requests s) (toLowerCase e name) of
        Response status data \<Rightarrow> parseResponse data
      | HttpError status data \<Rightarrow> Inl (HttpStatusError status data)
      | NoResponse \<Rightarrow> Inl NoResponseError)"
  by (simp add: checkDrug_def Let_def)

lemma parseResponse_failures:
  "getProp data ''success'' = Some (JBool False) \<Longrightarrow>
     parseResponse data =
       Inl (if canStringify (getProp data ''message'')
               \<and> canStringify (getProp data ''errorCode'')
               \<and> canStringify (getProp data ''requestId'')
            then ApiError (getProp data ''message'') else TypeError)"
  "\<not> truthy (getProp data ''success'') \<Longrightarrow> getProp data ''success'' \<noteq> Some (JBool False) \<Longrightarrow>
     parseResponse data = Inl UnexpectedFormat"
  "truthy (getProp data ''success'') \<Longrightarrow> \<not> truthy (getProp data ''result'') \<Longrightarrow>
     parseResponse data = Inl UnexpectedFormat"
  by (auto simp: parseResponse_def dest: getProp_Some_truthy)

lemma parseResponse_TypeError:
  assumes "truthy (getProp data ''success'')" "truthy (getProp data ''result'')"
    and "\<And>ps. getProp data ''result'' = Some (JArr ps) \<Longrightarrow> \<not> list_all loggable (take 3 ps)"
  shows "parseResponse data = Inl TypeError"
proof (cases "getProp data ''result''")
  case None
  then show ?thesis using assms(2) by simp
next
  case (Some v)
  then have t: "truthy (Some data)" by (rule getProp_Some_truthy)
  have ok: "getProp data ''success'' \<noteq> Some (JBool False)"
    using assms(1) by auto
  show ?thesis
  proof (cases v)
    case (JArr ps)
    then have "\<not> list_all loggable (take 3 ps)" using Some assms(3) by simp
    moreover from this have "ps \<noteq> []" by auto
    ultimately show ?thesis
      using Some JArr t ok assms(1) by (simp add: parseResponse_def)
  qed (use Some t ok assms(1,2) in \<open>simp_all add: parseResponse_def\<close>)
qed

text \<open>
  When \<open>checkDrug\<close> returns a result, the result is the one the claim C2 describes: it
  returns exactly for a payload with a truthy \<open>success\<close> and a \<open>result\<close> list whose first
  three entries the log line can print, and then "available" holds exactly when the list
  is not empty, the count is the length of the whole list and the sample is its first
  three entries in the order of the response.
\<close>

lemma checkDrug_Inr_iff:
  fixes r :: DrugCheckResult
  shows "fst (checkDrug e name s) = Inr r \<longleftrightarrow>
     (\<exists>status data matches.
         axios_get e (requests s) (toLowerCase e name) = Response status data
       \<and> truthy (getProp data ''success'')
       \<and> getProp data ''result'' = Some (JArr matches)
       \<and> list_all loggable (take 3 matches)
       \<and> isAvailable r = (matches \<noteq> [])
       \<and> (\<not> isAvailable r) = (matches = [])
       \<and> pharmacyCount r = Some (length matches)
       \<and> pharmacies r = Some (take 3 matches))"
proof (cases "axios_get e (requests s) (toLowerCase e name)")
  case (Response status data)
  have "fst (checkDrug e name s) = parseResponse data"
    by (simp add: checkDrug_fst Response)
  then show ?thesis
    by (auto simp: Response parseResponse_Inr_iff)
qed (simp_all add: checkDrug_fst)

lemma checkDrug_Inr_examples:
  "fst (checkDrug (world ''a'' (answering (found [pharmacyA, pharmacyB, pharmacyA, pharmacyB]))
          allDelivered) ''a'' (startup emptyDb))
     = Inr \<lparr>isAvailable = True, pharmacyCount = Some 4,
            pharmacies = Some [pharmacyA, pharmacyB, pharmacyA]\<rparr>
   \<and> fst (checkDrug (world ''a'' (answering (found [])) allDelivered) ''a'' (startup emptyDb))
     = Inr \<lparr>isAvailable = False, pharmacyCount = Some 0, pharmacies = Some []\<rparr>"
  by code_simp


text \<open>
  Claim C3 (failure classification). Whatever the item name: no response (timeout or
  network error) and an error status make \<open>checkDrug\<close> throw; so does a payload whose
  \<open>success\<close> is \<open>false\<close> (the error made from its message, or a TypeError when a log line
  before it cannot print the message, error code or request id); so does a payload it
  cannot read (no truthy \<open>success\<close>, no truthy \<open>result\<close>, or a \<open>result\<close> that is not a list
  whose first three entries can be printed). And a result saying "not available" is
  returned only for a payload with a truthy \<open>success\<close> and an empty list: none of the
  failures becomes "not available".
\<close>

theorem checkDrug_failure_classification:
  fixes r :: DrugCheckResult
  assumes "axios_get e (requests s) (toLowerCase e name) = outcome"
  shows
  "(outcome = NoResponse \<longrightarrow> fst (checkDrug e name s) = Inl NoResponseError)
   \<and> (outcome = HttpError status body \<longrightarrow>
        fst (checkDrug e name s) = Inl (HttpStatusError status body))
   \<and> (outcome = Response status data \<and> getProp data ''success'' = Some (JBool False) \<longrightarrow>
        fst (checkDrug e name s) =
          Inl (if canStringify (getProp data ''message'')
                  \<and> canStringify (getProp data ''errorCode'')
                  \<and> canStringify (getProp data ''requestId'')
               then ApiError (getProp data ''message'') else TypeError))
   \<and> (outcome = Response status data \<and> \<not> truthy (getProp data ''success'')
        \<and> getProp data ''success'' \<noteq> Some (JBool False) \<longrightarrow>
        fst (checkDrug e name s) = Inl UnexpectedFormat)
   \<and> (outcome = Response status data \<and> truthy (getProp data ''success'')
        \<and> \<not> truthy (getProp data ''result'') \<longrightarrow>
        fst (checkDrug e name s) = Inl UnexpectedFormat)
   \<and> (outcome = Response status data \<and> truthy (getProp data ''success'')
        \<and> truthy (getProp data ''result'')
        \<and> (\<forall>ps. getProp data ''result'' = Some (JArr ps) \<longrightarrow> \<not> list_all loggable (take 3 ps)) \<longrightarrow>
        fst (checkDrug e name s) = Inl TypeError)
   \<and> (fst (checkDrug e name s) = Inr r \<and> \<not> isAvailable r \<longrightarrow>
        (\<exists>st payload. outcome = Response st payload \<and> truthy (getProp payload ''success'')
           \<and> getProp payload ''result'' = Some (JArr [])))"
proof -
  have c1: "outcome = NoResponse \<longrightarrow> fst (checkDrug e name s) = Inl NoResponseError"
    using assms by (simp add: checkDrug_fst)
  have c2: "outcome = HttpError status body \<longrightarrow>
        fst (checkDrug e name s) = Inl (HttpStatusError status body)"
    using assms by (simp add: checkDrug_fst)
  have resp: "outcome = Response status data \<Longrightarrow> fst (checkDrug e name s) = parseResponse data"
    using assms by (simp add: checkDrug_fst)
  have c3: "outcome = Response status data \<and> getProp data ''success'' = Some (JBool False) \<longrightarrow>
        fst (checkDrug e name s) =
          Inl (if canStringify (getProp data ''message'')
                  \<and> canStringify (getProp data ''errorCode'')
                  \<and> canStringify (getProp data ''requestId'')
               then ApiError (getProp data ''message'') else TypeError)"
    using resp parseResponse_failures(1) by simp
  have c4: "outcome = Response status data \<and> \<not> truthy (getProp data ''success'')
        \<and> getProp data ''success'' \<noteq> Some (JBool False) \<longrightarrow>
        fst (checkDrug e name s) = Inl UnexpectedFormat"
    using resp parseResponse_failures(2) by simp
  have c5: "outcome = Response status data \<and> truthy (getProp data ''success'')
        \<and> \<not> truthy (getProp data ''result'') \<longrightarrow>
        fst (checkDrug e name s) = Inl UnexpectedFormat"
    using resp parseResponse_failures(3) by simp
  have c6: "outcome = Response status data \<and> truthy (getProp data ''success'')
        \<and> truthy (getProp data ''result'')
        \<and> (\<forall>ps. getProp data ''result'' = Some (JArr ps) \<longrightarrow> \<not> list_all loggable (take 3 ps)) \<longrightarrow>
        fst (checkDrug e name s) = Inl TypeError"
    using resp parseResponse_TypeError[of data] by simp
  have c7: "fst (checkDrug e name s) = Inr r \<and> \<not> isAvailable r \<longrightarrow>
        (\<exists>st payload. outcome = Response st payload \<and> truthy (getProp payload ''success'')
           \<and> getProp payload ''result'' = Some (JArr []))"
  proof (cases outcome)
    case (Response st payload)
    then have "fst (checkDrug e name s) = parseResponse payload"
      using assms by (simp add: checkDrug_fst)
    then show ?thesis
      by (auto simp: Response parseResponse_Inr_iff)
  qed (use assms in \<open>simp_all add: checkDrug_fst\<close>)
  show ?thesis
    using c1 c2 c3 c4 c5 c6 c7 by blast
qed

theorem checkDrug_failure_classification_witness:
  "fst (checkDrug (world ''a'' (answering NoResponse) allDelivered) ''a'' (startup emptyDb))
     = Inl NoResponseError
   \<and> fst (checkDrug (world ''a'' (answering (HttpError 503 JNull)) allDelivered) ''a'' (startup emptyDb))
     = Inl (HttpStatusError 503 JNull)
   \<and> fst (checkDrug (world ''a'' (answering (Response 200 refusal)) allDelivered) ''a'' (startup emptyDb))
     = Inl (ApiError (Some (JStr ''Service unavailable'')))
   \<and> fst (checkDrug (world ''a'' (answering (Response 200 garbled)) allDelivered) ''a'' (startup emptyDb))
     = Inl TypeError"
proof -
  let ?s = "startup emptyDb"
  have a: "axios_get (world ''a'' (answering out) allDelivered) (requests ?s)
       (toLowerCase (world ''a'' (answering out) allDelivered) ''a'') = out" for out
    by (simp add: world_def answering_def)
  have g: "truthy (getProp garbled ''success'')" "truthy (getProp garbled ''result'')"
     "\<forall>ps. getProp garbled ''result'' = Some (JArr ps) \<longrightarrow> \<not> list_all loggable (take 3 ps)"
    by (simp_all add: garbled_def)
  have r: "getProp refusal ''success'' = Some (JBool False)"
     "getProp refusal ''message'' = Some (JStr ''Service unavailable'')"
     "canStringify (getProp refusal ''message'')" "canStringify (getProp refusal ''errorCode'')"
     "canStringify (getProp refusal ''requestId'')"
    by (simp_all add: refusal_def)
  show ?thesis
    using checkDrug_failure_classification[OF a, of NoResponse]
      checkDrug_failure_classification[OF a, of "HttpError 503 JNull" 503 JNull]
      checkDrug_failure_classification[OF a, of "Response 200 refusal" 200 _ refusal]
      checkDrug_failure_classification[OF a, of "Response 200 garbled" 200 _ garbled]
      g r
    by simp
qed

section \<open>Properties of the engine: what each function changes\<close>

lemma queries_append [simp]: "queries (xs @ ys) = queries xs @ queries ys"
  by (induction xs rule: queries.induct) auto
lemma notified_append [simp]: "notified (xs @ ys) = notified xs @ notified ys"
  by (induction xs rule: notified.induct) auto
lemma deliveries_append [simp]: "deliveries (xs @ ys) = deliveries xs @ deliveries ys"
  by (induction xs rule: deliveries.induct) auto
lemma reads_append [simp]: "reads (xs @ ys) = reads xs + reads ys"
  by (induction xs rule: reads.induct) auto

lemma checkDrug_snd: "snd (checkDrug e n s) = s\<lparr>requests := Suc (requests s), trace := trace s @ [Query n]\<rparr>"
  by (simp add: checkDrug_def Let_def)

lemma deliver_trace: "trace (deliver e m subs s) = trace s @ map (\<lambda>sub. Send (chatId sub) m) subs"
  by (induction subs arbitrary: s) (auto simp: Let_def split: send_outcome.splits)

lemma deliver_frame:
  "isChecking (deliver e m subs s) = isChecking s"
  "apiErrorDrugs (deliver e m subs s) = apiErrorDrugs s"
  "retryTimer (deliver e m subs s) = retryTimer s"
  "timers (deliver e m subs s) = timers s"
  "timerCount (deliver e m subs s) = timerCount s"
  "requests (deliver e m subs s) = requests s"
  "sends (deliver e m subs s) = sends s + length subs"
  by (induction subs arbitrary: s; auto simp: Let_def split: send_outcome.splits)+

lemma send_trace: "trace (snd (sendNotificationToSubscribers e n r s)) =
   trace s @ [Notify n r, ListActive] @ (case formatMessage n r of Inl err \<Rightarrow> [] | Inr m \<Rightarrow> map (\<lambda>sub. Send (chatId sub) m) (getActiveSubscribers (db s)))"
  by (auto simp: sendNotificationToSubscribers_def Let_def deliver_trace split: sum.splits)

lemma send_frame:
  "isChecking (snd (sendNotificationToSubscribers e n r s)) = isChecking s"
  "apiErrorDrugs (snd (sendNotificationToSubscribers e n r s)) = apiErrorDrugs s"
  "retryTimer (snd (sendNotificationToSubscribers e n r s)) = retryTimer s"
  "timers (snd (sendNotificationToSubscribers e n r s)) = timers s"
  "timerCount (snd (sendNotificationToSubscribers e n r s)) = timerCount s"
  "requests (snd (sendNotificationToSubscribers e n r s)) = requests s"
  by (auto simp: sendNotificationToSubscribers_def Let_def deliver_frame split: sum.splits)

lemma prefix_since: "prefix (trace s) (trace s') \<Longrightarrow> trace s' = trace s @ since s s'"
  by (auto simp: since_def prefix_def)

lemma since_eq: "trace s' = trace s @ evs \<Longrightarrow> since s s' = evs"
  by (simp add: since_def)

lemma proj_sends [simp]:
  "queries (map (\<lambda>sub. Send (f sub) m) subs) = []"
  "notified (map (\<lambda>sub. Send (f sub) m) subs) = []"
  "reads (map (\<lambda>sub. Send (f sub) m) subs) = 0"
  "deliveries (map (\<lambda>sub. Send (f sub) m) subs) = map (\<lambda>sub. (f sub, m)) subs"
  by (induction subs) auto

lemma checkDrug_cases:
  obtains (fail) err where "checkDrug e d s = (Inl err, s\<lparr>requests := Suc (requests s), trace := trace s @ [Query d]\<rparr>)"
  | (ok) r where "checkDrug e d s = (Inr r, s\<lparr>requests := Suc (requests s), trace := trace s @ [Query d]\<rparr>)"
proof -
  have "snd (checkDrug e d s) = s\<lparr>requests := Suc (requests s), trace := trace s @ [Query d]\<rparr>"
    by (rule checkDrug_snd)
  then show ?thesis
    using fail ok by (cases "checkDrug e d s"; cases "fst (checkDrug e d s)") auto
qed

lemma checkItem_fail:
  assumes "fst (checkDrug e d s) = Inl err"
  shows "checkItem e d s = s\<lparr>requests := Suc (requests s), trace := trace s @ [Query d],
            apiErrorDrugs := set_add d (apiErrorDrugs s)\<rparr>"
  using assms by (cases e d s rule: checkDrug_cases) (auto simp: checkItem_def)

lemma checkItem_trace:
  "\<exists>evs. trace (checkItem e d s) = trace s @ Query d # evs \<and> queries evs = []"
proof (cases e d s rule: checkDrug_cases)
  case (fail err)
  then show ?thesis by (simp add: checkItem_def)
next
  case (ok r)
  let ?s1 = "s\<lparr>requests := Suc (requests s), trace := trace s @ [Query d]\<rparr>"
  have "trace (checkItem e d s) = trace (snd (sendNotificationToSubscribers e d r ?s1))"
    using ok by (simp add: checkItem_def split: prod.splits sum.splits)
  then show ?thesis
    by (simp add: send_trace split: sum.splits)
qed

lemma checkItem_frame:
  "isChecking (checkItem e d s) = isChecking s"
  "retryTimer (checkItem e d s) = retryTimer s"
  "timers (checkItem e d s) = timers s"
  "timerCount (checkItem e d s) = timerCount s"
  "requests (checkItem e d s) = Suc (requests s)"
  by (simp_all add: checkItem_def case_prod_beta checkDrug_snd send_frame split: sum.splits)

lemma checkItem_errors:
  "apiErrorDrugs (checkItem e d s) = apiErrorDrugs s \<or> apiErrorDrugs (checkItem e d s) = set_add d (apiErrorDrugs s)"
  by (simp add: checkItem_def case_prod_beta checkDrug_snd send_frame split: sum.splits)

lemma checkLoop_append: "checkLoop e (xs @ ys) s = checkLoop e ys (checkLoop e xs s)"
  by (induction xs arbitrary: s) auto

lemma checkLoop_frame:
  "isChecking (checkLoop e ds s) = isChecking s"
  "retryTimer (checkLoop e ds s) = retryTimer s"
  "timers (checkLoop e ds s) = timers s"
  "timerCount (checkLoop e ds s) = timerCount s"
  "requests (checkLoop e ds s) = requests s + length ds"
  by (induction ds arbitrary: s; simp add: checkItem_frame)+

lemma checkLoop_queries: "queries (trace (checkLoop e ds s)) = queries (trace s) @ ds"
proof (induction ds arbitrary: s)
  case Nil
  show ?case by simp
next
  case (Cons d ds)
  obtain evs where "trace (checkItem e d s) = trace s @ Query d # evs" "queries evs = []"
    using checkItem_trace by blast
  then show ?case by (simp add: Cons)
qed

lemma checkItem_prefix: "prefix (trace s) (trace (checkItem e d s))"
  using checkItem_trace[of e d s] by (auto simp: prefix_def)

lemma checkLoop_prefix: "prefix (trace s) (trace (checkLoop e ds s))"
proof (induction ds arbitrary: s)
  case Nil
  show ?case by simp
next
  case (Cons d ds)
  have "prefix (trace s) (trace (checkItem e d s))" by (rule checkItem_prefix)
  also have "prefix (trace (checkItem e d s)) (trace (checkLoop e ds (checkItem e d s)))" by (rule Cons)
  finally show ?case by simp
qed

lemma set_add_set: "set (set_add x xs) = insert x (set xs)"
  by (auto simp: set_add_def)

lemma checkItem_errors_mono: "set (apiErrorDrugs s) \<subseteq> set (apiErrorDrugs (checkItem e d s))"
  using checkItem_errors[of e d s] by (auto simp: set_add_set)

lemma checkLoop_errors_mono: "set (apiErrorDrugs s) \<subseteq> set (apiErrorDrugs (checkLoop e ds s))"
proof (induction ds arbitrary: s)
  case Nil
  show ?case by simp
next
  case (Cons d ds)
  show ?case using checkItem_errors_mono[of s e d] Cons[of "checkItem e d s"] by auto
qed

lemma checkLoop_errors_upper: "set (apiErrorDrugs (checkLoop e ds s)) \<subseteq> set (apiErrorDrugs s) \<union> set ds"
proof (induction ds arbitrary: s)
  case Nil
  show ?case by simp
next
  case (Cons d ds)
  have "set (apiErrorDrugs (checkItem e d s)) \<subseteq> insert d (set (apiErrorDrugs s))"
    using checkItem_errors[of e d s] by (auto simp: set_add_set)
  then show ?case using Cons[of "checkItem e d s"] by auto
qed

lemma checkLoop_take_Suc:
  "k < length ds \<Longrightarrow> checkLoop e (take (Suc k) ds) s = checkItem e (ds ! k) (checkLoop e (take k ds) s)"
  by (simp add: take_Suc_conv_app_nth checkLoop_append)

lemma scheduleRetryForErrors_frame:
  "isChecking (scheduleRetryForErrors s) = isChecking s"
  "apiErrorDrugs (scheduleRetryForErrors s) = apiErrorDrugs s"
  "db (scheduleRetryForErrors s) = db s"
  "requests (scheduleRetryForErrors s) = requests s"
  "sends (scheduleRetryForErrors s) = sends s"
  "trace (scheduleRetryForErrors s) = trace s"
  by (simp_all add: scheduleRetryForErrors_def setTimeout_def clearTimeout_def Let_def
      split: option.splits)

lemma checkAllDrugs_run:
  assumes "\<not> isChecking s"
  shows "trace (checkAllDrugs e s) = trace (checkLoop e (configuredDrugs e) (runStart s))"
    and "apiErrorDrugs (checkAllDrugs e s) = apiErrorDrugs (checkLoop e (configuredDrugs e) (runStart s))"
    and "db (checkAllDrugs e s) = db (checkLoop e (configuredDrugs e) (runStart s))"
    and "\<not> isChecking (checkAllDrugs e s)"
  using assms by (simp_all add: checkAllDrugs_def Let_def scheduleRetryForErrors_frame)

lemma isChecking_during_run: "isChecking (checkLoop e ds (runStart s))"
  by (simp add: checkLoop_frame runStart_def)

lemma retryItem_frame:
  "isChecking (retryItem e d s) = isChecking s"
  "apiErrorDrugs (retryItem e d s) = apiErrorDrugs s"
  "retryTimer (retryItem e d s) = retryTimer s"
  "timers (retryItem e d s) = timers s"
  "timerCount (retryItem e d s) = timerCount s"
  "requests (retryItem e d s) = Suc (requests s)"
  by (simp_all add: retryItem_def case_prod_beta checkDrug_snd send_frame split: sum.splits)

lemma retryItem_trace:
  "\<exists>evs. trace (retryItem e d s) = trace s @ Query d # evs \<and> queries evs = []"
  by (simp add: retryItem_def case_prod_beta checkDrug_snd send_trace split: sum.splits)

lemma retryLoop_frame:
  "isChecking (retryLoop e ds s) = isChecking s"
  "apiErrorDrugs (retryLoop e ds s) = apiErrorDrugs s"
  "retryTimer (retryLoop e ds s) = retryTimer s"
  "timers (retryLoop e ds s) = timers s"
  "timerCount (retryLoop e ds s) = timerCount s"
  "requests (retryLoop e ds s) = requests s + length ds"
  by (induction ds arbitrary: s; simp add: retryItem_frame)+

lemma retryLoop_prefix: "prefix (trace s) (trace (retryLoop e ds s))"
proof (induction ds arbitrary: s)
  case Nil
  show ?case by simp
next
  case (Cons d ds)
  have "prefix (trace s) (trace (retryItem e d s))"
    using retryItem_trace[of e d s] by (auto simp: prefix_def)
  also have "prefix (trace (retryItem e d s)) (trace (retryLoop e ds (retryItem e d s)))"
    by (rule Cons)
  finally show ?case by simp
qed

lemma retryLoop_queries: "queries (trace (retryLoop e ds s)) = queries (trace s) @ ds"
proof (induction ds arbitrary: s)
  case Nil
  show ?case by simp
next
  case (Cons d ds)
  obtain evs where "trace (retryItem e d s) = trace s @ Query d # evs" "queries evs = []"
    using retryItem_trace by blast
  then show ?case by (simp add: Cons)
qed

lemma since_queries:
  assumes "prefix (trace s) (trace s')" and "queries (trace s') = queries (trace s) @ ds"
  shows "queries (since s s') = ds"
  using assms prefix_since[of s s'] by (metis queries_append same_append_eq)

lemma retryCallback_queries: "queries (since s (retryCallback e s)) = apiErrorDrugs s"
proof (cases "apiErrorDrugs s = []")
  case True
  then show ?thesis by (simp add: retryCallback_def since_def)
next
  case False
  let ?s1 = "s\<lparr>apiErrorDrugs := []\<rparr>"
  have eq: "retryCallback e s = retryLoop e (apiErrorDrugs s) ?s1"
    using False by (simp add: retryCallback_def Let_def)
  have "prefix (trace s) (trace (retryLoop e (apiErrorDrugs s) ?s1))"
    using retryLoop_prefix[of ?s1] by simp
  moreover have "queries (trace (retryLoop e (apiErrorDrugs s) ?s1)) = queries (trace s) @ apiErrorDrugs s"
    by (simp add: retryLoop_queries)
  ultimately show ?thesis
    unfolding eq by (rule since_queries)
qed

lemma retryCallback_frame:
  "apiErrorDrugs (retryCallback e s) = []"
  "isChecking (retryCallback e s) = isChecking s"
  "retryTimer (retryCallback e s) = retryTimer s"
  "timers (retryCallback e s) = timers s"
  "timerCount (retryCallback e s) = timerCount s"
  by (simp_all add: retryCallback_def Let_def retryLoop_frame)

section \<open>Properties of the run orchestrator\<close>

text \<open>
  Claim C1 (single-flight guard). An invocation of \<open>checkAllDrugs\<close> in a state where
  \<open>isChecking\<close> is set changes nothing but the log: it appends the one "skipped" line,
  so the calls it makes hold no \<open>checkDrug\<close> call. \<open>isChecking\<close> is set in every state
  in which a run can be suspended (lemmas \<open>isChecking_during_run\<close>, \<open>deliver_frame\<close>) and
  is cleared when the run ends (\<open>checkAllDrugs_run\<close>).
\<close>

theorem checkAllDrugs_single_flight:
  assumes "isChecking s"
  shows "checkAllDrugs e s = s\<lparr>trace := trace s @ [LogSkipped]\<rparr>
     \<and> since s (checkAllDrugs e s) = [LogSkipped]
     \<and> queries (since s (checkAllDrugs e s)) = []"
  using assms by (simp add: checkAllDrugs_def since_def)

theorem checkAllDrugs_single_flight_witness:
  "isChecking (checkLoop calm [''a''] (runStart (startup (registryOf [1, 2]))))
   \<and> queries (since (checkLoop calm [''a''] (runStart (startup (registryOf [1, 2]))))
        (checkAllDrugs calm (checkLoop calm [''a''] (runStart (startup (registryOf [1, 2])))))) = []
   \<and> requests (checkAllDrugs calm (checkLoop calm [''a''] (runStart (startup (registryOf [1, 2]))))) = 1"
proof -
  let ?mid = "checkLoop calm [''a''] (runStart (startup (registryOf [1, 2])))"
  have busy: "isChecking ?mid"
    by (rule isChecking_during_run)
  note skipped = checkAllDrugs_single_flight[OF busy, of calm]
  have one: "requests ?mid = 1"
    by (simp add: checkItem_frame runStart_def startup_def)
  have "requests (checkAllDrugs calm ?mid) = 1"
    by (subst conjunct1[OF skipped]) (use one in simp)
  then show ?thesis
    using busy skipped by blast
qed

text \<open>
  Claim C4 (per-item failure isolation). In a run (an invocation that is not skipped),
  let item \<open>k\<close> of the configured list be one whose \<open>checkDrug\<close> call throws. Then the
  only call made for it in this pass is that query: no call of
  \<open>sendNotificationToSubscribers\<close>, no delivery, no change of the registry; its name is
  added to \<open>apiErrorDrugs\<close> and is still there when the run ends; the run goes on with the
  items after it; and the run queries every configured item, once each, in list order.
\<close>

theorem checkAllDrugs_failure_isolation:
  assumes "\<not> isChecking s" and "k < length (configuredDrugs e)"
    and "fst (checkDrug e (configuredDrugs e ! k)
           (checkLoop e (take k (configuredDrugs e)) (runStart s))) = Inl err"
  shows "let ds = configuredDrugs e;
             before = checkLoop e (take k ds) (runStart s);
             after = checkLoop e (take (Suc k) ds) (runStart s);
             final = checkAllDrugs e s
         in since before after = [Query (ds ! k)]
            \<and> notified (since before after) = []
            \<and> deliveries (since before after) = []
            \<and> db after = db before
            \<and> apiErrorDrugs after = set_add (ds ! k) (apiErrorDrugs before)
            \<and> ds ! k \<in> set (apiErrorDrugs final)
            \<and> trace final = trace (checkLoop e (drop (Suc k) ds) after)
            \<and> queries (since s final) = ds"
proof -
  define ds where "ds = configuredDrugs e"
  define before where "before = checkLoop e (take k ds) (runStart s)"
  define after where "after = checkLoop e (take (Suc k) ds) (runStart s)"
  define final where "final = checkAllDrugs e s"
  have k: "k < length ds" using assms(2) by (simp add: ds_def)
  have fails: "fst (checkDrug e (ds ! k) before) = Inl err"
    using assms(3) by (simp add: ds_def before_def)
  have step: "after = checkItem e (ds ! k) before"
    unfolding after_def before_def using k by (rule checkLoop_take_Suc)
  have item: "after = before\<lparr>requests := Suc (requests before),
      trace := trace before @ [Query (ds ! k)],
      apiErrorDrugs := set_add (ds ! k) (apiErrorDrugs before)\<rparr>"
    unfolding step using fails by (rule checkItem_fail)
  have new: "since before after = [Query (ds ! k)]"
    by (rule since_eq) (simp add: item)
  have whole: "checkLoop e ds (runStart s) = checkLoop e (drop (Suc k) ds) after"
    unfolding after_def by (simp add: checkLoop_append[symmetric])
  have "ds ! k \<in> set (apiErrorDrugs after)"
    by (simp add: item set_add_set)
  then have kept: "ds ! k \<in> set (apiErrorDrugs (checkLoop e ds (runStart s)))"
    unfolding whole using checkLoop_errors_mono by blast
  have tr: "trace final = trace (checkLoop e ds (runStart s))"
    and er: "apiErrorDrugs final = apiErrorDrugs (checkLoop e ds (runStart s))"
    unfolding final_def ds_def using assms(1) by (simp_all add: checkAllDrugs_run)
  have "queries (trace final) = queries (trace s) @ ds"
    by (simp add: tr checkLoop_queries runStart_def)
  moreover have "prefix (trace s) (trace final)"
    unfolding tr using checkLoop_prefix[of "runStart s" e ds] by (auto simp: runStart_def prefix_def)
  ultimately have all: "queries (since s final) = ds"
    using prefix_since[of s final] by (metis queries_append same_append_eq)
  show ?thesis
    unfolding Let_def ds_def[symmetric] before_def[symmetric] after_def[symmetric] final_def[symmetric]
    using new kept all by (simp add: item er tr whole)
qed

theorem checkAllDrugs_failure_isolation_witness:
  "\<not> isChecking (startup (registryOf [1]))
   \<and> fst (checkDrug flaky (configuredDrugs flaky ! 1)
        (checkLoop flaky (take 1 (configuredDrugs flaky)) (runStart (startup (registryOf [1])))))
      = Inl NoResponseError
   \<and> configuredDrugs flaky = [''a'', ''b'', ''c'']
   \<and> queries (since (startup (registryOf [1])) (checkAllDrugs flaky (startup (registryOf [1]))))
      = [''a'', ''b'', ''c'']
   \<and> notified (since (startup (registryOf [1])) (checkAllDrugs flaky (startup (registryOf [1]))))
      = [''a'', ''c'']
   \<and> map fst (deliveries (since (startup (registryOf [1])) (checkAllDrugs flaky (startup (registryOf [1])))))
      = [1, 1]
   \<and> apiErrorDrugs (checkAllDrugs flaky (startup (registryOf [1]))) = [''b'']"
proof -
  let ?s = "startup (registryOf [1])"
  have idle: "\<not> isChecking ?s"
    by (simp add: startup_def)
  have items: "configuredDrugs flaky = [''a'', ''b'', ''c'']"
    by code_simp
  have k: "1 < length (configuredDrugs flaky)"
    by (simp add: items)
  have fails: "fst (checkDrug flaky (configuredDrugs flaky ! 1)
        (checkLoop flaky (take 1 (configuredDrugs flaky)) (runStart ?s))) = Inl NoResponseError"
    by code_simp
  have "queries (since ?s (checkAllDrugs flaky ?s)) = configuredDrugs flaky"
    using checkAllDrugs_failure_isolation[OF idle k fails] by (simp add: Let_def)
  moreover have "notified (since ?s (checkAllDrugs flaky ?s)) = [''a'', ''c'']"
    by code_simp
  moreover have "map fst (deliveries (since ?s (checkAllDrugs flaky ?s))) = [1, 1]"
    by code_simp
  moreover have "apiErrorDrugs (checkAllDrugs flaky ?s) = [''b'']"
    by code_simp
  ultimately show ?thesis
    using idle fails items by simp
qed

section \<open>Properties of the retry wave\<close>

text \<open>
  Claim C7 (retry once). Whatever the source answers during the wave, so also for an
  item that failed in the run and fails again now: when the timer callback has run,
  \<open>apiErrorDrugs\<close> is empty (nothing is added again), the timer handle, the pending
  timers and the handle counter are as before (no further retry is scheduled), and the
  wave has queried each item of the set once. Firing a timer removes it from the pending
  ones. Only \<open>checkAllDrugs\<close> adds to \<open>apiErrorDrugs\<close> and schedules a timer.
\<close>

theorem retry_once:
  "apiErrorDrugs (retryCallback e s) = []
   \<and> retryTimer (retryCallback e s) = retryTimer s
   \<and> timers (retryCallback e s) = timers s
   \<and> timerCount (retryCallback e s) = timerCount s
   \<and> queries (since s (retryCallback e s)) = apiErrorDrugs s
   \<and> timers (fireTimer e t s) = removeAll t (timers s)
   \<and> apiErrorDrugs (fireTimer e t s) = (if t \<in> set (timers s) then [] else apiErrorDrugs s)"
  by (simp add: retryCallback_frame retryCallback_queries fireTimer_def)

theorem retry_once_witness:
  "apiErrorDrugs (checkAllDrugs dead (startup (registryOf [1]))) = [''a'']
   \<and> timers (checkAllDrugs dead (startup (registryOf [1]))) = [0]
   \<and> queries (since (checkAllDrugs dead (startup (registryOf [1])))
        (fireTimer dead 0 (checkAllDrugs dead (startup (registryOf [1]))))) = [''a'']
   \<and> apiErrorDrugs (fireTimer dead 0 (checkAllDrugs dead (startup (registryOf [1])))) = []
   \<and> timers (fireTimer dead 0 (checkAllDrugs dead (startup (registryOf [1])))) = []
   \<and> deliveries (trace (fireTimer dead 0 (checkAllDrugs dead (startup (registryOf [1]))))) = []"
proof -
  let ?s1 = "checkAllDrugs dead (startup (registryOf [1]))"
  have failed: "apiErrorDrugs ?s1 = [''a'']" and pending: "timers ?s1 = [0]"
    by code_simp+
  have "apiErrorDrugs (fireTimer dead 0 ?s1) = []" "timers (fireTimer dead 0 ?s1) = []"
    using retry_once[of dead "?s1" 0] by (simp_all add: pending)
  moreover have "queries (since ?s1 (fireTimer dead 0 ?s1)) = [''a'']"
    by code_simp
  moreover have "deliveries (trace (fireTimer dead 0 ?s1)) = []"
    by code_simp
  ultimately show ?thesis
    using failed pending by simp
qed

section \<open>Properties of the notification fan-out\<close>

lemma removeSubscriber_subscribers:
  "subscribers (snd (removeSubscriber c reg)) =
     map (\<lambda>x. if chat_id x = c then x\<lparr>is_active := 0\<rparr> else x) (subscribers reg)"
  by (simp add: removeSubscriber_def stmt_deactivateSubscriber_def Let_def)

lemma ex_less_Suc: "(\<exists>i<Suc n. P i) \<longleftrightarrow> P 0 \<or> (\<exists>i<n. P (Suc i))"
  by (metis less_Suc_eq_0_disj)

lemma deliver_db:
  "subscribers (db (deliver e m subs s)) =
     map (\<lambda>r. if (\<exists>i<length subs. chatId (subs ! i) = chat_id r
                     \<and> permanentFailure (bot_sendMessage e (sends s + i) (chatId (subs ! i)) m))
                then r\<lparr>is_active := 0\<rparr> else r)
         (subscribers (db s))"
proof (induction subs arbitrary: s)
  case Nil
  show ?case by simp
next
  case (Cons sub rest)
  let ?out = "bot_sendMessage e (sends s) (chatId sub) m"
  let ?s1 = "s\<lparr>sends := Suc (sends s), trace := trace s @ [Send (chatId sub) m]\<rparr>"
  let ?s2 = "if permanentFailure ?out
             then ?s1\<lparr>db := snd (removeSubscriber (chatId sub) (db ?s1))\<rparr> else ?s1"
  have step: "deliver e m (sub # rest) s = deliver e m rest ?s2"
    by (cases ?out) (simp_all add: Let_def)
  have s2: "sends ?s2 = Suc (sends s)"
    by simp
  have rows: "subscribers (db ?s2) =
      map (\<lambda>r. if chat_id r = chatId sub \<and> permanentFailure ?out then r\<lparr>is_active := 0\<rparr> else r)
        (subscribers (db s))"
    by (simp add: removeSubscriber_subscribers)
  show ?case
    unfolding step Cons[of ?s2] rows s2
    by (simp add: ex_less_Suc o_def cong: conj_cong) (auto intro!: map_cong)
qed

text \<open>
  The delivery loop is isolated for every message. Let the message for the result be one
  that \<open>formatMessage\<close> can build. Then \<open>sendNotificationToSubscribers\<close> returns
  normally; it attempts one delivery to every subscriber of the list it read, in list
  order, whatever the earlier deliveries answered; and the registry afterwards is the
  registry before with exactly the rows deactivated whose subscriber's delivery was
  rejected with an \<open>Error\<close> whose message includes "bot was blocked". Every other row,
  also that of a subscriber whose delivery failed in another way, is unchanged.
\<close>

lemma sendNotification_delivery_isolation:
  assumes "formatMessage name result = Inr msg"
  shows "let subs = getActiveSubscribers (db s);
             s' = snd (sendNotificationToSubscribers e name result s)
         in fst (sendNotificationToSubscribers e name result s) = Inr ()
            \<and> deliveries (since s s') = map (\<lambda>sub. (chatId sub, msg)) subs
            \<and> subscribers (db s') =
                map (\<lambda>r. if (\<exists>i<length subs. chatId (subs ! i) = chat_id r
                              \<and> permanentFailure
                                   (bot_sendMessage e (sends s + i) (chatId (subs ! i)) msg))
                         then r\<lparr>is_active := 0\<rparr> else r)
                    (subscribers (db s))"
proof -
  define subs where "subs = getActiveSubscribers (db s)"
  define s1 where "s1 = s\<lparr>trace := trace s @ [Notify name result, ListActive]\<rparr>"
  have run: "sendNotificationToSubscribers e name result s = (Inr (), deliver e msg subs s1)"
    using assms by (cases subs) (simp_all add: sendNotificationToSubscribers_def Let_def subs_def s1_def)
  have "trace (deliver e msg subs s1) =
      trace s @ [Notify name result, ListActive] @ map (\<lambda>sub. Send (chatId sub) msg) subs"
    by (simp add: deliver_trace s1_def)
  then have "since s (deliver e msg subs s1) =
      [Notify name result, ListActive] @ map (\<lambda>sub. Send (chatId sub) msg) subs"
    by (rule since_eq)
  then have sent: "deliveries (since s (deliver e msg subs s1)) = map (\<lambda>sub. (chatId sub, msg)) subs"
    by simp
  have rows: "subscribers (db (deliver e msg subs s1)) =
      map (\<lambda>r. if (\<exists>i<length subs. chatId (subs ! i) = chat_id r
                     \<and> permanentFailure (bot_sendMessage e (sends s + i) (chatId (subs ! i)) msg))
                then r\<lparr>is_active := 0\<rparr> else r)
          (subscribers (db s))"
    using deliver_db[of e msg subs s1] by (simp add: s1_def)
  show ?thesis
    unfolding Let_def subs_def[symmetric] run using sent rows by simp
qed

lemma sendNotification_delivery_isolation_example:
  "formatMessage ''a'' sampleResult = Inr sampleMessage
   \<and> map chatId (getActiveSubscribers (db (startup (registryOf [1, 2, 3, 4])))) = [1, 2, 3, 4]
   \<and> fst (sendNotificationToSubscribers unstable ''a'' sampleResult (startup (registryOf [1, 2, 3, 4])))
      = Inr ()
   \<and> deliveries (since (startup (registryOf [1, 2, 3, 4]))
        (snd (sendNotificationToSubscribers unstable ''a'' sampleResult
           (startup (registryOf [1, 2, 3, 4])))))
      = [(1, sampleMessage), (2, sampleMessage), (3, sampleMessage), (4, sampleMessage)]
   \<and> map chatId (getActiveSubscribers (db (snd (sendNotificationToSubscribers unstable ''a''
        sampleResult (startup (registryOf [1, 2, 3, 4])))))) = [1, 3, 4]"
proof -
  let ?s = "startup (registryOf [1, 2, 3, 4])"
  have fmt: "formatMessage ''a'' sampleResult = Inr sampleMessage"
    by code_simp
  have subs: "map chatId (getActiveSubscribers (db ?s)) = [1, 2, 3, 4]"
    by code_simp
  note iso = sendNotification_delivery_isolation[OF fmt, of ?s unstable, unfolded Let_def]
  have "deliveries (since ?s (snd (sendNotificationToSubscribers unstable ''a'' sampleResult ?s)))
      = map (\<lambda>c. (c, sampleMessage)) (map chatId (getActiveSubscribers (db ?s)))"
    using iso by (simp add: o_def)
  then have sent: "deliveries (since ?s (snd (sendNotificationToSubscribers unstable ''a'' sampleResult ?s)))
      = [(1, sampleMessage), (2, sampleMessage), (3, sampleMessage), (4, sampleMessage)]"
    by (simp add: subs)
  have left: "map chatId (getActiveSubscribers (db (snd (sendNotificationToSubscribers unstable ''a''
        sampleResult ?s)))) = [1, 3, 4]"
    by code_simp
  show ?thesis
    using fmt subs sent left iso by blast
qed

text \<open>
  Claim C8 (delivery isolation and selective deactivation). The claim: for every
  recipient list and every result, the fan-out attempts a delivery to each recipient in
  list order, deactivates exactly the recipients that have blocked the bot, and never
  passes an error to the run. The code does so once the message is built (lemma
  \<open>sendNotification_delivery_isolation\<close>), but it builds the message before the loop and
  outside any \<open>try\<close>: here the source answers with a match that has no
  \<open>storeWorkingTime\<close>, \<open>checkDrug\<close> returns the result, recipient 1 is active, and the
  fan-out raises a TypeError before any delivery. The error reaches the \<open>catch\<close> of the
  run, which files the item under \<open>apiErrorDrugs\<close> as if the query had failed.
\<close>

theorem sendNotification_message_raises:
  "fst (checkDrug noHours ''a'' (startup (registryOf [1]))) = Inr noHoursResult
   \<and> map chatId (getActiveSubscribers (db (snd (checkDrug noHours ''a'' (startup (registryOf [1])))))) = [1]
   \<and> fst (sendNotificationToSubscribers noHours ''a'' noHoursResult
        (snd (checkDrug noHours ''a'' (startup (registryOf [1]))))) = Inl TypeError
   \<and> deliveries (trace (snd (sendNotificationToSubscribers noHours ''a'' noHoursResult
        (snd (checkDrug noHours ''a'' (startup (registryOf [1]))))))) = []
   \<and> apiErrorDrugs (checkAllDrugs noHours (startup (registryOf [1]))) = [''a'']"
  by code_simp

section \<open>Properties of the recipient list\<close>

lemma checkItem_reads:
  "reads (trace (checkItem e d s)) + length (notified (trace s)) =
   reads (trace s) + length (notified (trace (checkItem e d s)))"
  by (simp add: checkItem_def case_prod_beta checkDrug_snd send_trace split: sum.splits)

lemma checkLoop_reads:
  "reads (trace (checkLoop e ds s)) + length (notified (trace s)) =
   reads (trace s) + length (notified (trace (checkLoop e ds s)))"
proof (induction ds arbitrary: s)
  case Nil
  show ?case by simp
next
  case (Cons d ds)
  show ?case
    using Cons[of "checkItem e d s"] checkItem_reads[of e d s] by simp
qed

lemma checkAllDrugs_prefix: "prefix (trace s) (trace (checkAllDrugs e s))"
proof (cases "isChecking s")
  case True
  then show ?thesis by (simp add: checkAllDrugs_def)
next
  case False
  have "prefix (trace s) (trace (runStart s))"
    by (simp add: runStart_def)
  also have "prefix (trace (runStart s)) (trace (checkLoop e (configuredDrugs e) (runStart s)))"
    by (rule checkLoop_prefix)
  finally show ?thesis
    using False by (simp add: checkAllDrugs_run)
qed

text \<open>
  Claim C5 (recipient snapshot), as amended. A run reads the active recipients once
  itself, for its log, and every call of \<open>sendNotificationToSubscribers\<close> reads them once
  more when it starts: the reads of a run are one more than its fan-out calls. A fan-out
  call whose message can be built delivers to exactly the list it read itself, in the
  order of that list.
\<close>

theorem recipients_read_per_fanout:
  "(\<not> isChecking s \<longrightarrow>
      reads (since s (checkAllDrugs e s)) = 1 + length (notified (since s (checkAllDrugs e s))))
   \<and> reads (since s (snd (sendNotificationToSubscribers e name result s))) = 1
   \<and> (formatMessage name result = Inr msg \<longrightarrow>
        deliveries (since s (snd (sendNotificationToSubscribers e name result s))) =
          map (\<lambda>sub. (chatId sub, msg)) (getActiveSubscribers (db s)))"
proof -
  have "reads (since s (checkAllDrugs e s)) = 1 + length (notified (since s (checkAllDrugs e s)))"
    if idle: "\<not> isChecking s"
  proof -
    let ?f = "checkAllDrugs e s"
    have tr: "trace ?f = trace (checkLoop e (configuredDrugs e) (runStart s))"
      using idle by (rule checkAllDrugs_run)
    have "reads (trace ?f) + length (notified (trace s)) =
        reads (trace s) + 1 + length (notified (trace ?f))"
      unfolding tr using checkLoop_reads[of e "configuredDrugs e" "runStart s"]
      by (simp add: runStart_def)
    moreover have pfx: "trace ?f = trace s @ since s ?f"
      using checkAllDrugs_prefix by (rule prefix_since)
    have "reads (trace ?f) = reads (trace s) + reads (since s ?f)"
      using arg_cong[OF pfx, of reads] by simp
    moreover have "length (notified (trace ?f)) =
        length (notified (trace s)) + length (notified (since s ?f))"
      using arg_cong[OF pfx, of "\<lambda>t. length (notified t)"] by simp
    ultimately show ?thesis
      by linarith
  qed
  moreover have call: "since s (snd (sendNotificationToSubscribers e name result s)) =
       [Notify name result, ListActive] @
       (case formatMessage name result of
          Inl err \<Rightarrow> []
        | Inr m \<Rightarrow> map (\<lambda>sub. Send (chatId sub) m) (getActiveSubscribers (db s)))"
    by (rule since_eq) (simp add: send_trace)
  have "reads (since s (snd (sendNotificationToSubscribers e name result s))) = 1"
    unfolding call by (simp split: sum.splits)
  moreover have "deliveries (since s (snd (sendNotificationToSubscribers e name result s))) =
          map (\<lambda>sub. (chatId sub, msg)) (getActiveSubscribers (db s))"
    if "formatMessage name result = Inr msg"
    unfolding call using that by simp
  ultimately show ?thesis by blast
qed

theorem recipients_read_per_fanout_witness:
  "\<not> isChecking (startup (registryOf [1, 2]))
   \<and> reads (since (startup (registryOf [1, 2])) (checkAllDrugs snapshotEnv (startup (registryOf [1, 2]))))
      = 1 + length (notified (since (startup (registryOf [1, 2]))
                      (checkAllDrugs snapshotEnv (startup (registryOf [1, 2])))))
   \<and> notified (since (startup (registryOf [1, 2])) (checkAllDrugs snapshotEnv (startup (registryOf [1, 2]))))
      = [''a'', ''b'']
   \<and> formatMessage ''a'' sampleResult = Inr sampleMessage
   \<and> map chatId (getActiveSubscribers (db (startup (registryOf [1, 2])))) = [1, 2]
   \<and> deliveries (since (startup (registryOf [1, 2]))
        (snd (sendNotificationToSubscribers snapshotEnv ''a'' sampleResult
           (startup (registryOf [1, 2])))))
      = [(1, sampleMessage), (2, sampleMessage)]"
proof -
  let ?s = "startup (registryOf [1, 2])"
  have idle: "\<not> isChecking ?s"
    by (simp add: startup_def)
  have fmt: "formatMessage ''a'' sampleResult = Inr sampleMessage"
    by code_simp
  have subs: "map chatId (getActiveSubscribers (db ?s)) = [1, 2]"
    by code_simp
  note per = recipients_read_per_fanout[of ?s snapshotEnv "''a''" sampleResult sampleMessage]
  have "deliveries (since ?s (snd (sendNotificationToSubscribers snapshotEnv ''a'' sampleResult ?s)))
      = map (\<lambda>c. (c, sampleMessage)) (map chatId (getActiveSubscribers (db ?s)))"
    using per fmt by (simp add: o_def)
  then have sent: "deliveries (since ?s (snd (sendNotificationToSubscribers snapshotEnv ''a''
        sampleResult ?s))) = [(1, sampleMessage), (2, sampleMessage)]"
    by (simp add: subs)
  have "notified (since ?s (checkAllDrugs snapshotEnv ?s)) = [''a'', ''b'']"
    by code_simp
  then show ?thesis
    using idle fmt subs sent per by blast
qed

text \<open>
  Claim C5 as it was stated (one read per run, every fan-out of the run delivering to
  that one list) fails: recipients 1 and 2 are active when the run starts, recipient 2 has
  blocked the bot, both items are found. The fan-out for the first item delivers to 1
  and 2 and deactivates 2; the fan-out for the second item reads the list again and
  delivers to 1 only. The run reads the list three times.
\<close>

theorem recipients_snapshot_counterexample:
  "map chatId (getActiveSubscribers (db (startup (registryOf [1, 2])))) = [1, 2]
   \<and> notified (trace (checkAllDrugs snapshotEnv (startup (registryOf [1, 2])))) = [''a'', ''b'']
   \<and> map fst (deliveries (trace (checkAllDrugs snapshotEnv (startup (registryOf [1, 2]))))) = [1, 2, 1]
   \<and> reads (trace (checkAllDrugs snapshotEnv (startup (registryOf [1, 2])))) = 3"
  by code_simp

section \<open>Properties of retry scheduling\<close>

lemma set_add_prefix: "prefix xs (set_add x xs)"
  by (simp add: set_add_def)

lemma checkItem_errors_prefix: "prefix (apiErrorDrugs s) (apiErrorDrugs (checkItem e d s))"
  using checkItem_errors[of e d s] by (auto simp: set_add_prefix)

lemma checkLoop_errors_prefix: "prefix (apiErrorDrugs s) (apiErrorDrugs (checkLoop e ds s))"
proof (induction ds arbitrary: s)
  case Nil
  show ?case by simp
next
  case (Cons d ds)
  have "prefix (apiErrorDrugs s) (apiErrorDrugs (checkItem e d s))"
    by (rule checkItem_errors_prefix)
  also have "prefix (apiErrorDrugs (checkItem e d s)) (apiErrorDrugs (checkLoop e ds (checkItem e d s)))"
    by (rule Cons)
  finally show ?case by simp
qed

lemma timersOk_iff:
  "timersOk s \<longleftrightarrow>
     (timers s = [] \<or> (\<exists>t. timers s = [t] \<and> retryTimer s = Some t \<and> apiErrorDrugs s \<noteq> []))
     \<and> (\<forall>t. retryTimer s = Some t \<longrightarrow> t < timerCount s)"
  by (auto simp: timersOk_def split: option.splits)

lemma timersOk_startup: "timersOk (startup reg)"
  by (simp add: timersOk_iff startup_def)

lemma scheduleRetryForErrors_pending:
  assumes "timersOk s" "apiErrorDrugs s \<noteq> []"
  shows "timers (scheduleRetryForErrors s) = [timerCount s]"
    and "retryTimer (scheduleRetryForErrors s) = Some (timerCount s)"
    and "timerCount (scheduleRetryForErrors s) = Suc (timerCount s)"
  using assms
  by (auto simp: timersOk_iff scheduleRetryForErrors_def setTimeout_def clearTimeout_def Let_def
      split: option.splits)

lemma scheduleRetryForErrors_idle:
  assumes "apiErrorDrugs s = []"
  shows "scheduleRetryForErrors s = s"
  using assms by (simp add: scheduleRetryForErrors_def)

lemma timersOk_cong:
  assumes "timers s' = timers s" "retryTimer s' = retryTimer s" "timerCount s' = timerCount s"
    and "apiErrorDrugs s \<noteq> [] \<Longrightarrow> apiErrorDrugs s' \<noteq> []"
  shows "timersOk s \<Longrightarrow> timersOk s'"
  using assms by (auto simp: timersOk_iff)

lemma timersOk_checkLoop:
  assumes "timersOk s"
  shows "timersOk (checkLoop e ds s)"
proof (rule timersOk_cong[OF _ _ _ _ assms])
  show "apiErrorDrugs (checkLoop e ds s) \<noteq> []" if "apiErrorDrugs s \<noteq> []"
    using that checkLoop_errors_prefix[of s e ds] by auto
qed (simp_all add: checkLoop_frame)

lemma timersOk_checkAllDrugs:
  assumes "timersOk s"
  shows "timersOk (checkAllDrugs e s)"
proof (cases "isChecking s")
  case True
  then show ?thesis using assms by (simp add: checkAllDrugs_def timersOk_iff)
next
  case False
  let ?l = "checkLoop e (configuredDrugs e) (runStart s)"
  have "timersOk (runStart s)"
    using assms by (simp add: timersOk_iff runStart_def)
  then have ok: "timersOk ?l"
    by (rule timersOk_checkLoop)
  have "timersOk (scheduleRetryForErrors ?l)"
  proof (cases "apiErrorDrugs ?l = []")
    case True
    then show ?thesis using ok by (simp add: scheduleRetryForErrors_idle)
  next
    case False
    then show ?thesis
      using scheduleRetryForErrors_pending[OF ok False]
      by (simp add: timersOk_iff scheduleRetryForErrors_frame)
  qed
  then show ?thesis
    using False by (simp add: checkAllDrugs_def Let_def timersOk_iff)
qed

lemma timersOk_fireTimer:
  assumes "timersOk s"
  shows "timersOk (fireTimer e t s)"
  using assms by (auto simp: timersOk_iff fireTimer_def retryCallback_frame)

text \<open>
  Claim C6 (retry supersession), as amended. In a reachable state with a retry wave
  pending, a run that is not skipped cancels the pending timer (it never fires) and
  schedules a new one, which is then the only pending timer. The set of failed items is
  not cleared: the items of the superseded wave stay in it, in front of the items the run
  adds, all of them configured items. The wave that executes retries the whole set.
\<close>

theorem retry_supersession_accumulates:
  assumes "timersOk s" and "\<not> isChecking s" and "t \<in> set (timers s)"
  shows "let s1 = checkAllDrugs e s; t1 = timerCount s
         in apiErrorDrugs s \<noteq> []
            \<and> timers s1 = [t1] \<and> retryTimer s1 = Some t1 \<and> t1 \<noteq> t
            \<and> fireTimer e t s1 = s1
            \<and> prefix (apiErrorDrugs s) (apiErrorDrugs s1)
            \<and> set (apiErrorDrugs s1) \<subseteq> set (apiErrorDrugs s) \<union> set (configuredDrugs e)
            \<and> queries (since s1 (fireTimer e t1 s1)) = apiErrorDrugs s1"
proof -
  define l where "l = checkLoop e (configuredDrugs e) (runStart s)"
  define s1 where "s1 = checkAllDrugs e s"
  have pending: "timers s = [t]" "retryTimer s = Some t" "apiErrorDrugs s \<noteq> []" "t < timerCount s"
    using assms(1,3) by (auto simp: timersOk_iff)
  have s1: "s1 = (scheduleRetryForErrors l)\<lparr>isChecking := False\<rparr>"
    using assms(2) by (simp add: s1_def l_def checkAllDrugs_def Let_def)
  have "timersOk (runStart s)"
    using assms(1) by (simp add: timersOk_iff runStart_def)
  then have ok: "timersOk l"
    unfolding l_def by (rule timersOk_checkLoop)
  have grows: "prefix (apiErrorDrugs s) (apiErrorDrugs l)"
    unfolding l_def using checkLoop_errors_prefix[of "runStart s" e] by (simp add: runStart_def)
  then have nonempty: "apiErrorDrugs l \<noteq> []"
    using pending(3) by auto
  have count: "timerCount l = timerCount s"
    by (simp add: l_def checkLoop_frame runStart_def)
  have upper: "set (apiErrorDrugs l) \<subseteq> set (apiErrorDrugs s) \<union> set (configuredDrugs e)"
    unfolding l_def using checkLoop_errors_upper[of e "configuredDrugs e" "runStart s"]
    by (simp add: runStart_def)
  have t1: "timers s1 = [timerCount s]" "retryTimer s1 = Some (timerCount s)"
    and errs: "apiErrorDrugs s1 = apiErrorDrugs l"
    using scheduleRetryForErrors_pending[OF ok nonempty]
    by (simp_all add: s1 count scheduleRetryForErrors_frame)
  have fresh: "timerCount s \<noteq> t"
    using pending(4) by simp
  have gone: "fireTimer e t s1 = s1"
    using fresh by (simp add: fireTimer_def t1)
  have "fireTimer e (timerCount s) s1 = retryCallback e (s1\<lparr>timers := []\<rparr>)"
    by (simp add: fireTimer_def t1)
  moreover have "queries (since (s1\<lparr>timers := []\<rparr>) (retryCallback e (s1\<lparr>timers := []\<rparr>)))
      = apiErrorDrugs (s1\<lparr>timers := []\<rparr>)"
    by (rule retryCallback_queries)
  ultimately have wave: "queries (since s1 (fireTimer e (timerCount s) s1)) = apiErrorDrugs s1"
    by (simp add: since_def)
  show ?thesis
    unfolding Let_def s1_def[symmetric]
    using pending(3) t1 fresh gone grows upper wave by (simp add: errs)
qed

theorem retry_supersession_accumulates_witness:
  "timersOk (checkAllDrugs shifting (startup emptyDb))
   \<and> \<not> isChecking (checkAllDrugs shifting (startup emptyDb))
   \<and> timers (checkAllDrugs shifting (startup emptyDb)) = [0]
   \<and> apiErrorDrugs (checkAllDrugs shifting (startup emptyDb)) = [''a'']
   \<and> timers (checkAllDrugs shifting (checkAllDrugs shifting (startup emptyDb))) = [1]
   \<and> fireTimer shifting 0 (checkAllDrugs shifting (checkAllDrugs shifting (startup emptyDb)))
      = checkAllDrugs shifting (checkAllDrugs shifting (startup emptyDb))
   \<and> queries (since (checkAllDrugs shifting (checkAllDrugs shifting (startup emptyDb)))
        (fireTimer shifting 1 (checkAllDrugs shifting (checkAllDrugs shifting (startup emptyDb)))))
      = apiErrorDrugs (checkAllDrugs shifting (checkAllDrugs shifting (startup emptyDb)))
   \<and> apiErrorDrugs (checkAllDrugs shifting (checkAllDrugs shifting (startup emptyDb)))
      = [''a'', ''b'']"
proof -
  let ?s1 = "checkAllDrugs shifting (startup emptyDb)"
  have ok: "timersOk ?s1"
    using timersOk_startup by (rule timersOk_checkAllDrugs)
  have idle: "\<not> isChecking ?s1"
    by (simp add: checkAllDrugs_run startup_def)
  have pending: "timers ?s1 = [0]" and failed: "apiErrorDrugs ?s1 = [''a'']"
    and count: "timerCount ?s1 = 1"
    by code_simp+
  have wave: "0 \<in> set (timers ?s1)"
    by (simp add: pending)
  have both: "apiErrorDrugs (checkAllDrugs shifting ?s1) = [''a'', ''b'']"
    by code_simp
  show ?thesis
    using ok idle pending failed both
      retry_supersession_accumulates[OF ok idle wave, of shifting, unfolded Let_def count]
    by simp
qed

text \<open>
  Claim C6 as it was stated (the superseded items are dropped, the wave retries the
  newest failure set only) fails: in the first run item \<open>a\<close> fails and \<open>b\<close> is checked;
  in the second run, made while the wave is pending, \<open>a\<close> is checked and notified and
  only \<open>b\<close> fails. The wave that executes queries \<open>a\<close> and \<open>b\<close>.
\<close>

theorem retry_supersession_counterexample:
  "timers (checkAllDrugs shifting (startup emptyDb)) = [0]
   \<and> apiErrorDrugs (checkAllDrugs shifting (startup emptyDb)) = [''a'']
   \<and> since (checkAllDrugs shifting (startup emptyDb))
        (checkAllDrugs shifting (checkAllDrugs shifting (startup emptyDb)))
      = [ListActive, Query ''a'',
         Notify ''a'' \<lparr>isAvailable = False, pharmacyCount = Some 0, pharmacies = Some []\<rparr>,
         ListActive, Query ''b'']
   \<and> timers (checkAllDrugs shifting (checkAllDrugs shifting (startup emptyDb))) = [1]
   \<and> queries (since (checkAllDrugs shifting (checkAllDrugs shifting (startup emptyDb)))
        (fireTimer shifting 1 (checkAllDrugs shifting (checkAllDrugs shifting (startup emptyDb)))))
      = [''a'', ''b'']"
  by code_simp

end
